theory Spec2Isabelle
  imports Main
begin

section \<open>The storage layer of \<open>src/helpers/database.ts\<close>\<close>

text \<open>
  The development embeds the class \<open>Database\<close> of \<open>src/helpers/database.ts\<close> and
  the model class \<open>BaseModel\<close> it generates for every declared table.

  Two collaborators of the class are not part of the repository: the file system
  (\<open>fs/promises\<close>) and the embedded relational engine (\<open>sqlite3\<close>). Both are modelled
  as explicit state with a log of the calls the code makes, so that "performs no file
  operation" and "before any engine call" are statements about the log. Each of the two
  also carries an oracle of calls that the collaborator refuses for a reason outside the
  model (a locked file, a full disk, an I/O error); every theorem below holds for
  every such oracle.

  Asynchronous methods are modelled in program order, each awaited call running to
  completion. A thrown exception is a value \<open>Inl e\<close> of a sum type. The
  \<open>error_callback\<close> that the methods call on an engine error is taken to return, as the
  default one does; what it does is not part of the model.
\<close>

subsection \<open>Values and result envelopes\<close>

text \<open>
  A JavaScript value held by a column: \<open>undefined\<close>, \<open>null\<close>, a number (the
  integer-valued numbers of an \<open>INTEGER\<close> column) or a string.
\<close>

datatype val = Undefined | Null | Num int | Str string

text \<open>
  \<open>ApiResponse\<close>: the fields \<open>status\<close> and \<open>changes\<close> are optional in the
  source, \<open>None\<close> is an absent field. The payload fields (\<open>rows\<close>, \<open>row\<close>,
  \<open>info\<close>) are returned beside the envelope by the functions that produce them.
\<close>

record api_response =
  code :: int
  status :: "bool option"
  changes :: "nat option"

definition resp :: "int \<Rightarrow> bool \<Rightarrow> api_response" where
  "resp c s = \<lparr>code = c, status = Some s, changes = None\<rparr>"

definition resp_code :: "int \<Rightarrow> api_response" where
  "resp_code c = \<lparr>code = c, status = None, changes = None\<rparr>"

definition resp_changes :: "int \<Rightarrow> bool \<Rightarrow> nat \<Rightarrow> api_response" where
  "resp_changes c s n = \<lparr>code = c, status = Some s, changes = Some n\<rparr>"

text \<open>The truthiness test \<open>if (result.status)\<close>: an absent field is falsy.\<close>

definition truthy_status :: "api_response \<Rightarrow> bool" where
  "truthy_status r = (status r = Some True)"

subsection \<open>The file system\<close>

text \<open>
  The three calls of \<open>backup()\<close>: \<open>fsp.mkdir(path.dirname(f), {recursive: true})\<close>,
  \<open>fsp.unlink(f)\<close> and \<open>fsp.copyFile(src, dst)\<close>.
\<close>

datatype fs_op = MkdirParent string | Unlink string | CopyFile string string

record fsys =
  files :: "(string \<times> string) list"
  fs_refuses :: "fs_op \<Rightarrow> bool"
  fs_log :: "fs_op list"

definition fs_note :: "fs_op \<Rightarrow> fsys \<Rightarrow> fsys" where
  "fs_note op f = f\<lparr>fs_log := fs_log f @ [op]\<rparr>"

text \<open>
  \<open>mkdir\<close> of the parent directory: directories are not tracked, the call is only
  logged (the source discards its outcome).
\<close>

definition fs_mkdir_parent :: "string \<Rightarrow> fsys \<Rightarrow> fsys" where
  "fs_mkdir_parent p f = fs_note (MkdirParent p) f"

text \<open>\<open>unlink\<close> rejects when no file exists at the path (\<open>ENOENT\<close>) or the call is refused.\<close>

definition fs_unlink :: "string \<Rightarrow> fsys \<Rightarrow> bool \<times> fsys" where
  "fs_unlink p f =
     (if fs_refuses f (Unlink p) \<or> map_of (files f) p = None
      then (False, fs_note (Unlink p) f)
      else (True, fs_note (Unlink p) (f\<lparr>files := filter (\<lambda>e. fst e \<noteq> p) (files f)\<rparr>)))"

text \<open>\<open>copyFile\<close> rejects when the source file is missing or the call is refused.\<close>

definition fs_copyFile :: "string \<Rightarrow> string \<Rightarrow> fsys \<Rightarrow> bool \<times> fsys" where
  "fs_copyFile src dst f =
     (case map_of (files f) src of
        None \<Rightarrow> (False, fs_note (CopyFile src dst) f)
      | Some content \<Rightarrow>
          if fs_refuses f (CopyFile src dst) then (False, fs_note (CopyFile src dst) f)
          else (True, fs_note (CopyFile src dst)
                  (f\<lparr>files := (dst, content) # filter (\<lambda>e. fst e \<noteq> dst) (files f)\<rparr>)))"

subsection \<open>The relational engine\<close>

text \<open>
  A physical table: its columns (name and declared type, in physical order, as
  \<open>PRAGMA table_info\<close> reports them) and its rows, one value per column.
  Identifiers are compared exactly, and the text the source interpolates into a statement
  is kept as a structured statement: identifiers are assumed free of quote characters.
\<close>

record ptable =
  cols :: "(string \<times> string) list"
  rows :: "val list list"

text \<open>The statements the source issues, one constructor per SQL template.\<close>

datatype stmt =
    SelectTable string
  | SelectTables
  | TableInfo string
  | CreateTable string "(string \<times> string) list"
  | DropTable string
  | RenameTable string string
  | AddColumn string string string
  | UpdateAll string string val
  | RenameColumn string string string
  | DropColumn string string
  | InsertSelect string "string list" string
  | InsertValues string "val list"
  | SelectAll string "nat option"
  | SelectWhere string string string val "nat option"
  | SelectExists string string string val
  | UpdateWhere string string val string val
  | DeleteWhere string string string val "nat option"
  | InsertMove string string string string val "nat option"
  | Vacuum

record engine =
  master :: "(string \<times> ptable) list"
  refuses :: "stmt list \<Rightarrow> stmt \<Rightarrow> bool"
  issued :: "stmt list"

definition log_stmt :: "stmt \<Rightarrow> engine \<Rightarrow> engine" where
  "log_stmt s e = e\<lparr>issued := issued e @ [s]\<rparr>"

text \<open>A bound parameter: \<open>undefined\<close> is stored as \<open>NULL\<close>.\<close>

definition bind :: "val \<Rightarrow> val" where
  "bind v = (if v = Undefined then Null else v)"

fun bytes_less :: "string \<Rightarrow> string \<Rightarrow> bool" where
  "bytes_less [] [] = False"
| "bytes_less [] (b # bs) = True"
| "bytes_less (a # as) [] = False"
| "bytes_less (a # as) (b # bs) =
     ((of_char a :: nat) < of_char b \<or> (a = b \<and> bytes_less as bs))"

text \<open>The engine's order of stored values: numbers before text; \<open>NULL\<close> compares with nothing.\<close>

fun sql_less :: "val \<Rightarrow> val \<Rightarrow> bool" where
  "sql_less (Num a) (Num b) = (a < b)"
| "sql_less (Num a) (Str b) = True"
| "sql_less (Str a) (Str b) = bytes_less a b"
| "sql_less _ _ = False"

definition is_null :: "val \<Rightarrow> bool" where
  "is_null v = (v = Null \<or> v = Undefined)"

text \<open>
  The comparison \<open>"field" op ?\<close> of a stored value with a bound one. \<open>None\<close>: the operator
  is not one of the comparison operators, and the statement is rejected.
\<close>

definition sql_test :: "string \<Rightarrow> val \<Rightarrow> val \<Rightarrow> bool option" where
  "sql_test op a b =
     (if op = ''='' \<or> op = ''=='' then Some (\<not> is_null a \<and> \<not> is_null b \<and> a = b)
      else if op = ''<>'' \<or> op = ''!='' then Some (\<not> is_null a \<and> \<not> is_null b \<and> a \<noteq> b)
      else if op = ''<'' then Some (sql_less a b)
      else if op = ''>'' then Some (sql_less b a)
      else if op = ''<='' then Some (\<not> is_null a \<and> \<not> is_null b \<and> \<not> sql_less b a)
      else if op = ''>='' then Some (\<not> is_null a \<and> \<not> is_null b \<and> \<not> sql_less a b)
      else None)"

fun col_index :: "string \<Rightarrow> (string \<times> string) list \<Rightarrow> nat option" where
  "col_index c [] = None"
| "col_index c (x # xs) =
     (if fst x = c then Some 0 else map_option Suc (col_index c xs))"

definition cell :: "nat \<Rightarrow> val list \<Rightarrow> val" where
  "cell i r = (if i < length r then r ! i else Null)"

definition set_cell :: "nat \<Rightarrow> val \<Rightarrow> val list \<Rightarrow> val list" where
  "set_cell i v r = r[i := v]"

definition drop_cell :: "nat \<Rightarrow> 'a list \<Rightarrow> 'a list" where
  "drop_cell i r = take i r @ drop (Suc i) r"

text \<open>
  The rows of a table that satisfy \<open>"field" op ?\<close>, as a list of flags in row order;
  \<open>None\<close> when the column does not exist or the operator is rejected.
\<close>

definition matching :: "ptable \<Rightarrow> string \<Rightarrow> string \<Rightarrow> val \<Rightarrow> bool list option" where
  "matching t field op v =
     (case col_index field (cols t) of
        None \<Rightarrow> None
      | Some i \<Rightarrow>
          (case sql_test op Null Null of
             None \<Rightarrow> None
           | Some _ \<Rightarrow> Some (map (\<lambda>r. the (sql_test op (cell i r) (bind v))) (rows t))))"

text \<open>\<open>LIMIT n\<close>: only the first \<open>n\<close> flagged rows stay flagged.\<close>

fun limit_flags :: "nat option \<Rightarrow> bool list \<Rightarrow> bool list" where
  "limit_flags None bs = bs"
| "limit_flags (Some n) [] = []"
| "limit_flags (Some n) (b # bs) =
     (if b then (if n = 0 then False # limit_flags (Some 0) bs
                 else True # limit_flags (Some (n - 1)) bs)
      else False # limit_flags (Some n) bs)"

definition pick_rows :: "bool list \<Rightarrow> 'a list \<Rightarrow> 'a list" where
  "pick_rows bs rs = map snd (filter fst (zip bs rs))"

definition drop_rows :: "bool list \<Rightarrow> 'a list \<Rightarrow> 'a list" where
  "drop_rows bs rs = map snd (filter (\<lambda>p. \<not> fst p) (zip bs rs))"

definition count_true :: "bool list \<Rightarrow> nat" where
  "count_true bs = length (filter id bs)"

definition set_table :: "string \<Rightarrow> ptable \<Rightarrow> (string \<times> ptable) list \<Rightarrow> (string \<times> ptable) list" where
  "set_table n t m = map (\<lambda>e. if fst e = n then (n, t) else e) m"

text \<open>
  What a statement that changes storage does: the new tables and the number of rows
  changed, or \<open>None\<close> when the engine rejects the statement (and changes nothing).
\<close>

fun effect :: "stmt \<Rightarrow> (string \<times> ptable) list \<Rightarrow> ((string \<times> ptable) list \<times> nat) option" where
  "effect (CreateTable n cs) m =
     (if map_of m n \<noteq> None \<or> cs = [] \<or> \<not> distinct (map fst cs) then None
      else Some (m @ [(n, \<lparr>cols = cs, rows = []\<rparr>)], 0))"
| "effect (DropTable n) m =
     (if map_of m n = None then None else Some (filter (\<lambda>e. fst e \<noteq> n) m, 0))"
| "effect (RenameTable a b) m =
     (if map_of m a = None \<or> map_of m b \<noteq> None then None
      else Some (map (\<lambda>e. if fst e = a then (b, snd e) else e) m, 0))"
| "effect (AddColumn n c ty) m =
     (case map_of m n of
        None \<Rightarrow> None
      | Some t \<Rightarrow>
          if c \<in> set (map fst (cols t)) then None
          else Some (set_table n \<lparr>cols = cols t @ [(c, ty)], rows = map (\<lambda>r. r @ [Null]) (rows t)\<rparr> m, 0))"
| "effect (UpdateAll n c v) m =
     (case map_of m n of
        None \<Rightarrow> None
      | Some t \<Rightarrow>
          (case col_index c (cols t) of
             None \<Rightarrow> None
           | Some i \<Rightarrow> Some (set_table n (t\<lparr>rows := map (set_cell i (bind v)) (rows t)\<rparr>) m,
                             length (rows t))))"
| "effect (RenameColumn n a b) m =
     (case map_of m n of
        None \<Rightarrow> None
      | Some t \<Rightarrow>
          if a \<notin> set (map fst (cols t)) \<or> b \<in> set (map fst (cols t)) then None
          else Some (set_table n
                 (t\<lparr>cols := map (\<lambda>c. if fst c = a then (b, snd c) else c) (cols t)\<rparr>) m, 0))"
| "effect (DropColumn n c) m =
     (case map_of m n of
        None \<Rightarrow> None
      | Some t \<Rightarrow>
          (case col_index c (cols t) of
             None \<Rightarrow> None
           | Some i \<Rightarrow>
               if length (cols t) \<le> 1 then None
               else Some (set_table n
                      \<lparr>cols = drop_cell i (cols t), rows = map (drop_cell i) (rows t)\<rparr> m, 0)))"
| "effect (InsertSelect dst cs src) m =
     (case (map_of m dst, map_of m src) of
        (Some d, Some s) \<Rightarrow>
          if length cs \<noteq> length (cols d) \<or> (\<exists>c \<in> set cs. col_index c (cols s) = None) then None
          else Some (set_table dst
                 (d\<lparr>rows := rows d @
                      map (\<lambda>r. map (\<lambda>c. cell (the (col_index c (cols s))) r) cs) (rows s)\<rparr>) m,
                 length (rows s))
      | _ \<Rightarrow> None)"
| "effect (InsertValues n vs) m =
     (case map_of m n of
        None \<Rightarrow> None
      | Some t \<Rightarrow>
          if length vs \<noteq> length (cols t) then None
          else Some (set_table n (t\<lparr>rows := rows t @ [map bind vs]\<rparr>) m, 1))"
| "effect (UpdateWhere n field v search_field search_value) m =
     (case map_of m n of
        None \<Rightarrow> None
      | Some t \<Rightarrow>
          (case (col_index field (cols t), matching t search_field ''='' search_value) of
             (Some i, Some bs) \<Rightarrow>
               Some (set_table n
                      (t\<lparr>rows := map (\<lambda>p. if fst p then set_cell i (bind v) (snd p) else snd p)
                                   (zip bs (rows t))\<rparr>) m,
                     count_true bs)
           | _ \<Rightarrow> None))"
| "effect (DeleteWhere n field op v lim) m =
     (case map_of m n of
        None \<Rightarrow> None
      | Some t \<Rightarrow>
          (case matching t field op v of
             None \<Rightarrow> None
           | Some bs \<Rightarrow>
               Some (set_table n (t\<lparr>rows := drop_rows (limit_flags lim bs) (rows t)\<rparr>) m,
                     count_true (limit_flags lim bs))))"
| "effect (InsertMove dst src field op v lim) m =
     (case (map_of m dst, map_of m src) of
        (Some d, Some s) \<Rightarrow>
          (case matching s field op v of
             None \<Rightarrow> None
           | Some bs \<Rightarrow>
               if length (cols s) \<noteq> length (cols d) then None
               else Some (set_table dst
                      (d\<lparr>rows := rows d @ pick_rows (limit_flags lim bs) (rows s)\<rparr>) m,
                      count_true (limit_flags lim bs)))
      | _ \<Rightarrow> None)"
| "effect Vacuum m = Some (m, 0)"
| "effect _ m = None"

text \<open>\<open>db.run\<close>: the number of changed rows, or \<open>None\<close> for an error.\<close>

definition db_run :: "stmt \<Rightarrow> engine \<Rightarrow> nat option \<times> engine" where
  "db_run s e =
     (if refuses e (issued e) s then (None, log_stmt s e)
      else (case effect s (master e) of
              None \<Rightarrow> (None, log_stmt s e)
            | Some (m, n) \<Rightarrow> (Some n, log_stmt s (e\<lparr>master := m\<rparr>))))"

text \<open>A row as the engine hands it to a callback: an object from column name to value.\<close>

type_synonym obj = "(string \<times> val) list"

definition row_obj :: "ptable \<Rightarrow> val list \<Rightarrow> obj" where
  "row_obj t r = zip (map fst (cols t)) r"

text \<open>
  What a query answers, without changing storage: the matching rows as objects.
  \<open>PRAGMA table_info\<close> of a missing table answers no rows, without an error.
\<close>

fun answer :: "stmt \<Rightarrow> (string \<times> ptable) list \<Rightarrow> obj list option" where
  "answer (SelectTable n) m =
     Some (map (\<lambda>e. [(''name'', Str (fst e))]) (filter (\<lambda>e. fst e = n) m))"
| "answer SelectTables m = Some (map (\<lambda>e. [(''name'', Str (fst e))]) m)"
| "answer (TableInfo n) m =
     (case map_of m n of
        None \<Rightarrow> Some []
      | Some t \<Rightarrow> Some (map (\<lambda>c. [(''name'', Str (fst c)), (''type'', Str (snd c))]) (cols t)))"
| "answer (SelectAll n lim) m =
     (case map_of m n of
        None \<Rightarrow> None
      | Some t \<Rightarrow> Some (map (row_obj t)
                     (case lim of None \<Rightarrow> rows t | Some k \<Rightarrow> take k (rows t))))"
| "answer (SelectWhere n field op v lim) m =
     (case map_of m n of
        None \<Rightarrow> None
      | Some t \<Rightarrow>
          (case matching t field op v of
             None \<Rightarrow> None
           | Some bs \<Rightarrow> Some (map (row_obj t) (pick_rows (limit_flags lim bs) (rows t)))))"
| "answer (SelectExists n field op v) m =
     (case map_of m n of
        None \<Rightarrow> None
      | Some t \<Rightarrow>
          (case matching t field op v of
             None \<Rightarrow> None
           | Some bs \<Rightarrow> Some (map (\<lambda>r. [(field, cell (the (col_index field (cols t))) r)])
                              (pick_rows (limit_flags (Some 1) bs) (rows t)))))"
| "answer _ m = None"

text \<open>\<open>db.all\<close>: every answered row; \<open>db.get\<close>: the first one, if any.\<close>

definition db_all :: "stmt \<Rightarrow> engine \<Rightarrow> obj list option \<times> engine" where
  "db_all s e =
     (if refuses e (issued e) s then (None, log_stmt s e) else (answer s (master e), log_stmt s e))"

definition db_get :: "stmt \<Rightarrow> engine \<Rightarrow> obj option option \<times> engine" where
  "db_get s e =
     (case db_all s e of
        (None, e') \<Rightarrow> (None, e')
      | (Some rs, e') \<Rightarrow> (Some (case rs of [] \<Rightarrow> None | r # _ \<Rightarrow> Some r), e'))"

text \<open>Reading a property of an object: \<open>obj[key]\<close>, \<open>undefined\<close> when absent.\<close>

definition get_prop :: "obj \<Rightarrow> string \<Rightarrow> val" where
  "get_prop ob k = (case map_of ob k of None \<Rightarrow> Undefined | Some v \<Rightarrow> v)"

subsection \<open>Declared schemas\<close>

text \<open>
  \<open>TableColumn\<close>. An absent \<open>old\<close> is \<open>None\<close>, an absent flag is \<open>False\<close>, an absent
  \<open>default_value\<close> is \<open>Undefined\<close>. The type is the text interpolated into the
  statement (\<open>TEXT\<close> or \<open>INTEGER\<close> for a declared column).
\<close>

record column =
  old :: "string option"
  name :: string
  type :: string
  pkey :: bool
  sensitive :: bool
  default_value :: val

type_synonym table_schema = "column list"

text \<open>
  \<open>DatabaseTables\<close>: the declared tables in the order \<open>for (const table in this.tables)\<close>
  visits them. The keys of an object are distinct.
\<close>

type_synonym database_tables = "(string \<times> table_schema) list"

datatype js_error = TypeError | Error string

subsection \<open>Migration\<close>

definition tableExists :: "string \<Rightarrow> engine \<Rightarrow> api_response \<times> engine" where
  "tableExists table e =
     (case db_get (SelectTable table) e of
        (None, e') \<Rightarrow> (resp 500 False, e')
      | (Some db_table, e') \<Rightarrow> (resp 200 (db_table \<noteq> None), e'))"

definition getTables :: "engine \<Rightarrow> (api_response \<times> string list) \<times> engine" where
  "getTables e =
     (case db_all SelectTables e of
        (None, e') \<Rightarrow> ((resp 500 False, []), e')
      | (Some rs, e') \<Rightarrow>
          ((resp 200 True, map (\<lambda>r. case get_prop r ''name'' of Str n \<Rightarrow> n | _ \<Rightarrow> []) rs), e'))"

text \<open>The rows of \<open>PRAGMA table_info\<close> as pairs of name and type.\<close>

definition info_cols :: "obj list \<Rightarrow> (string \<times> string) list" where
  "info_cols rs =
     map (\<lambda>r. (case get_prop r ''name'' of Str n \<Rightarrow> n | _ \<Rightarrow> [],
                case get_prop r ''type'' of Str n \<Rightarrow> n | _ \<Rightarrow> [])) rs"

definition table_info :: "string \<Rightarrow> engine \<Rightarrow> (string \<times> string) list option \<times> engine" where
  "table_info table e =
     (case db_all (TableInfo table) e of
        (None, e') \<Rightarrow> (None, e')
      | (Some rs, e') \<Rightarrow> (Some (info_cols rs), e'))"

definition fieldExists :: "string \<Rightarrow> string \<Rightarrow> engine \<Rightarrow> api_response \<times> engine" where
  "fieldExists table field e =
     (case table_info table e of
        (None, e') \<Rightarrow> (resp 500 False, e')
      | (Some table_fields, e') \<Rightarrow> (resp 200 (field \<in> set (map fst table_fields)), e'))"

definition deleteTable :: "string \<Rightarrow> engine \<Rightarrow> api_response \<times> engine" where
  "deleteTable table e =
     (let (result, e1) = tableExists table e in
      if code result \<noteq> 200 then (resp 500 False, e1)
      else if \<not> truthy_status result then (resp 404 False, e1)
      else (case db_run (DropTable table) e1 of
              (None, e2) \<Rightarrow> (resp 500 False, e2)
            | (Some _, e2) \<Rightarrow> (resp 200 True, e2)))"

definition renameTable :: "string \<Rightarrow> string \<Rightarrow> engine \<Rightarrow> api_response \<times> engine" where
  "renameTable old_table new_table e =
     (let (result1, e1) = tableExists old_table e in
      if \<not> truthy_status result1
      then (resp (if code result1 = 200 then 404 else 500) False, e1)
      else
        (let (result2, e2) = tableExists new_table e1 in
         if code result2 \<noteq> 200 \<or> truthy_status result2
         then (resp (if code result1 = 200 then 409 else 500) False, e2)
         else (case db_run (RenameTable old_table new_table) e2 of
                 (None, e3) \<Rightarrow> (resp 500 False, e3)
               | (Some _, e3) \<Rightarrow> (resp 200 True, e3))))"

definition addField :: "string \<Rightarrow> string \<Rightarrow> string \<Rightarrow> val \<Rightarrow> engine \<Rightarrow> api_response \<times> engine" where
  "addField table field ty default_val e =
     (let (result, e1) =
        (case db_run (AddColumn table field ty) e of
           (None, e1) \<Rightarrow> (resp 500 False, e1)
         | (Some _, e1) \<Rightarrow> (resp 200 True, e1))
      in if is_null default_val \<or> code result \<noteq> 200 then (result, e1)
         else (case db_run (UpdateAll table field default_val) e1 of
                 (None, e2) \<Rightarrow> (resp 500 False, e2)
               | (Some _, e2) \<Rightarrow> (resp 200 True, e2)))"

definition deleteField :: "string \<Rightarrow> string \<Rightarrow> engine \<Rightarrow> api_response \<times> engine" where
  "deleteField table field e =
     (case db_run (DropColumn table field) e of
        (None, e1) \<Rightarrow> (resp 500 False, e1)
      | (Some _, e1) \<Rightarrow> (resp 200 True, e1))"

definition renameField :: "string \<Rightarrow> string \<Rightarrow> string \<Rightarrow> engine \<Rightarrow> api_response \<times> engine" where
  "renameField table old_field new_field e =
     (let (result1, e1) = fieldExists table old_field e in
      if \<not> truthy_status result1
      then (resp (if code result1 = 200 then 404 else 500) False, e1)
      else
        (let (result2, e2) = fieldExists table new_field e1 in
         if code result2 \<noteq> 200 \<or> truthy_status result2
         then (resp (if code result1 = 200 then 409 else 500) False, e2)
         else (case db_run (RenameColumn table old_field new_field) e2 of
                 (None, e3) \<Rightarrow> (resp 500 False, e3)
               | (Some _, e3) \<Rightarrow> (resp 200 True, e3))))"

text \<open>
  A promise is settled by the first call of \<open>resolve\<close>; later calls are ignored. The
  loops of \<open>addFields\<close> call \<open>resolve(result)\<close> without returning, so they carry the
  value the promise has settled to so far (\<open>None\<close>: not yet settled) and go on. The
  statements issued after the promise has settled are modelled as issued before the
  caller goes on.
\<close>

definition settle :: "api_response option \<Rightarrow> api_response \<Rightarrow> api_response option" where
  "settle settled r = (case settled of None \<Rightarrow> Some r | Some r0 \<Rightarrow> Some r0)"

text \<open>\<open>for (const field of fields) { if (!field.old) continue; ... renameField ... }\<close>\<close>

fun rename_loop ::
  "string \<Rightarrow> column list \<Rightarrow> api_response option \<Rightarrow> engine \<Rightarrow> api_response option \<times> engine" where
  "rename_loop table [] settled e = (settled, e)"
| "rename_loop table (field # flds) settled e =
     (case old field of
        None \<Rightarrow> rename_loop table flds settled e
      | Some old_name \<Rightarrow>
          if old_name = [] then rename_loop table flds settled e
          else
            (let (result, e1) = renameField table old_name (name field) e in
             rename_loop table flds
               (if code result = 500 then settle settled result else settled) e1))"

text \<open>\<open>for (const field of missing_fields) { ... addField ... }\<close>\<close>

fun add_loop ::
  "string \<Rightarrow> column list \<Rightarrow> api_response option \<Rightarrow> engine \<Rightarrow> api_response option \<times> engine" where
  "add_loop table [] settled e = (settled, e)"
| "add_loop table (field # flds) settled e =
     (let (result, e1) = addField table (name field) (type field) (default_value field) e in
      add_loop table flds (if code result \<noteq> 200 then settle settled result else settled) e1)"

text \<open>\<open>for (const field of unused_fields) { ... deleteField ... }\<close>\<close>

fun drop_loop ::
  "string \<Rightarrow> string list \<Rightarrow> api_response option \<Rightarrow> engine \<Rightarrow> api_response option \<times> engine" where
  "drop_loop table [] settled e = (settled, e)"
| "drop_loop table (field # flds) settled e =
     (let (result, e1) = deleteField table field e in
      drop_loop table flds (if code result \<noteq> 200 then settle settled result else settled) e1)"

definition addFields ::
  "string \<Rightarrow> column list \<Rightarrow> bool \<Rightarrow> engine \<Rightarrow> api_response \<times> engine" where
  "addFields table flds del_unused e =
     (let (settled1, e1) = rename_loop table flds None e in
      case table_info table e1 of
        (None, e2) \<Rightarrow> (the (settle settled1 (resp 500 False)), e2)
      | (Some table_fields, e2) \<Rightarrow>
          (let add_fields = map name flds;
               db_fields = map fst table_fields;
               missing_fields = filter (\<lambda>f. name f \<notin> set db_fields) flds;
               unused_fields = filter (\<lambda>n. n \<notin> set add_fields) db_fields;
               (settled3, e3) = add_loop table missing_fields settled1 e2;
               (settled4, e4) =
                 (if del_unused \<and> unused_fields \<noteq> []
                  then drop_loop table unused_fields settled3 e3 else (settled3, e3))
           in (the (settle settled4 (resp 200 True)), e4)))"

definition createTable ::
  "bool \<Rightarrow> string \<Rightarrow> column list \<Rightarrow> engine \<Rightarrow> api_response \<times> engine" where
  "createTable del_unused table flds e =
     (let (result, e1) = tableExists table e in
      if code result \<noteq> 200 then (resp_code 500, e1)
      else if truthy_status result then addFields table flds del_unused e1
      else (case db_run (CreateTable table (map (\<lambda>f. (name f, type f)) flds)) e1 of
              (None, e2) \<Rightarrow> (resp 500 False, e2)
            | (Some _, e2) \<Rightarrow> (resp 200 True, e2)))"

text \<open>
  \<open>fields.every((e, i) => table_fields[i].name == e.name)\<close>: \<open>every\<close> stops at the
  first mismatch; reading \<open>.name\<close> of a missing \<open>table_fields[i]\<close> throws a TypeError.
\<close>

fun every_match :: "column list \<Rightarrow> (string \<times> string) list \<Rightarrow> js_error + bool" where
  "every_match [] table_fields = Inr True"
| "every_match (f # fs) [] = Inl TypeError"
| "every_match (f # fs) (t # ts) = (if fst t = name f then every_match fs ts else Inr False)"

text \<open>
  \<open>fields.map(e => { index = table_fields.findIndex(...); return index != -1 ?
  table_fields.splice(index, 1)[0] : null })\<close>: the picked entries (\<open>None\<close> for
  \<open>null\<close>) and what is left of \<open>table_fields\<close>.
\<close>

fun pick_fields ::
  "column list \<Rightarrow> (string \<times> string) list \<Rightarrow> (string \<times> string) option list \<times> (string \<times> string) list" where
  "pick_fields [] table_fields = ([], table_fields)"
| "pick_fields (f # fs) table_fields =
     (case List.extract (\<lambda>c. fst c = name f) table_fields of
        None \<Rightarrow> (let (ps, rest) = pick_fields fs table_fields in (None # ps, rest))
      | Some (before, c, after) \<Rightarrow>
          (let (ps, rest) = pick_fields fs (before @ after) in (Some c # ps, rest)))"

text \<open>A row of \<open>table_info\<close> read as a \<open>TableColumn\<close>: only \<open>name\<close> and \<open>type\<close> are there.\<close>

definition info_column :: "string \<times> string \<Rightarrow> column" where
  "info_column c = \<lparr>old = None, name = fst c, type = snd c, pkey = False,
                     sensitive = False, default_value = Undefined\<rparr>"

definition digit_char :: "nat \<Rightarrow> char" where
  "digit_char d = char_of (48 + d)"

fun show_nat :: "nat \<Rightarrow> string" where
  "show_nat n = (if n < 10 then [digit_char n] else show_nat (n div 10) @ [digit_char (n mod 10)])"

declare show_nat.simps [simp del]

definition temp_name :: "nat \<Rightarrow> string" where
  "temp_name rand_id = ''temp_'' @ show_nat rand_id"

text \<open>
  \<open>reorderFields\<close>; \<open>rand_id\<close> is the number drawn by \<open>Math.random\<close>. With a \<open>null\<close>
  among \<open>db_fields\<close>, \<open>createTable\<close> throws a TypeError on reading \<open>field.name\<close>
  (or \<open>field.old\<close>) once its \<open>tableExists\<close> has answered.
\<close>

definition reorderFields ::
  "bool \<Rightarrow> nat \<Rightarrow> string \<Rightarrow> column list \<Rightarrow> engine \<Rightarrow> js_error + (api_response \<times> engine)" where
  "reorderFields del_unused rand_id table flds e =
     (case table_info table e of
        (None, e1) \<Rightarrow> Inr (resp 500 False, e1)
      | (Some table_fields, e1) \<Rightarrow>
          (case every_match flds table_fields of
             Inl x \<Rightarrow> Inl x
           | Inr True \<Rightarrow> Inr (resp 200 False, e1)
           | Inr False \<Rightarrow>
               (let (picked, rest) = pick_fields flds table_fields;
                    db_fields = picked @ map Some rest;
                    (_, e2) = deleteTable (temp_name rand_id) e1
                in if None \<in> set db_fields
                   then (let (r, e3) = tableExists (temp_name rand_id) e2
                         in if code r \<noteq> 200 then Inr (resp_code 500, e3) else Inl TypeError)
                   else
                     (let (result, e3) =
                            createTable del_unused (temp_name rand_id)
                              (map (\<lambda>c. info_column (the c)) db_fields) e2
                      in if code result \<noteq> 200 then Inr (result, e3)
                         else
                           (case db_run (InsertSelect (temp_name rand_id)
                                           (map (\<lambda>c. fst (the c)) db_fields) table) e3 of
                              (None, e4) \<Rightarrow> Inr (resp 500 False, e4)
                            | (Some _, e4) \<Rightarrow>
                                (let (r5, e5) = deleteTable table e4 in
                                 if code r5 \<noteq> 200 then Inr (resp (code r5) False, e5)
                                 else
                                   (let (r6, e6) = renameTable (temp_name rand_id) table e5 in
                                    if code r6 \<noteq> 200 then Inr (resp (code r6) False, e6)
                                    else Inr (resp 200 True, e6))))))))"

subsection \<open>The facade: open, backup, vacuum\<close>

text \<open>
  The fields of a \<open>Database\<close> object the methods below read or write, with its two
  collaborators: \<open>db\<close> is the engine behind the handle and \<open>disk\<close> the file system.
  \<open>open_error\<close> says whether \<open>new sqlite3.Database(...)\<close> reports an error. A timer
  field is \<open>True\<close> once \<open>setInterval\<close> has installed the timer (the source holds
  \<open>-1\<close> before).
\<close>

record database =
  filename :: string
  backup_filename :: string
  delete_unused :: bool
  reorder :: bool
  tables :: database_tables
  backup_enabled :: bool
  vacuum_enabled :: bool
  ready :: bool
  busy :: bool
  backup_timer :: bool
  vacuum_timer :: bool
  open_error :: bool
  db :: engine
  disk :: fsys

text \<open>
  The first loop of \<open>open()\<close>. The outcomes of \<open>createTable\<close> and \<open>reorderFields\<close>
  are discarded. \<open>rnd table\<close> is the number \<open>Math.random\<close> yields in the call of
  \<open>reorderFields\<close> for \<open>table\<close>. A TypeError thrown inside the callback leaves the
  promise of \<open>open()\<close> unsettled for ever: \<open>Inl\<close>.
\<close>

fun migrate_tables ::
  "bool \<Rightarrow> bool \<Rightarrow> (string \<Rightarrow> nat) \<Rightarrow> database_tables \<Rightarrow> engine \<Rightarrow> js_error + engine" where
  "migrate_tables del_unused reord rnd [] e = Inr e"
| "migrate_tables del_unused reord rnd ((table, flds) # ts) e =
     (let (_, e1) = createTable del_unused table flds e in
      if reord
      then (case reorderFields del_unused (rnd table) table flds e1 of
              Inl x \<Rightarrow> Inl x
            | Inr (_, e2) \<Rightarrow> migrate_tables del_unused reord rnd ts e2)
      else migrate_tables del_unused reord rnd ts e1)"

text \<open>
  The second loop: \<open>if (this.delete_unused && !this.tables[table]) await
  this.deleteTable(table)\<close>.
\<close>

fun prune_tables :: "bool \<Rightarrow> database_tables \<Rightarrow> string list \<Rightarrow> engine \<Rightarrow> engine" where
  "prune_tables del_unused tabs [] e = e"
| "prune_tables del_unused tabs (table # ts) e =
     (if del_unused \<and> map_of tabs table = None
      then prune_tables del_unused tabs ts (snd (deleteTable table e))
      else prune_tables del_unused tabs ts e)"

definition open_db :: "(string \<Rightarrow> nat) \<Rightarrow> database \<Rightarrow> js_error + (api_response \<times> database)" where
  "open_db rnd this =
     (let this1 = this\<lparr>disk := fs_mkdir_parent (filename this) (disk this)\<rparr> in
      if open_error this1 then Inr (resp 500 False, this1)
      else
        (case migrate_tables (delete_unused this1) (reorder this1) rnd (tables this1) (db this1) of
           Inl x \<Rightarrow> Inl x
         | Inr e1 \<Rightarrow>
             (let ((_, names), e2) = getTables e1;
                  e3 = prune_tables (delete_unused this1) (tables this1) names e2
              in Inr (resp 200 True,
                      this1\<lparr>db := e3, ready := True,
                            backup_timer := (if backup_enabled this1 then True else backup_timer this1),
                            vacuum_timer := (if vacuum_enabled this1 then True else vacuum_timer this1)\<rparr>))))"

text \<open>\<open>backup(filename?)\<close>: an absent or empty \<open>filename\<close> is \<open>this.backup_filename\<close>.\<close>

definition backup :: "string option \<Rightarrow> database \<Rightarrow> api_response \<times> database" where
  "backup fname this =
     (if busy this then (resp 429 False, this)
      else
        (let target = (case fname of None \<Rightarrow> backup_filename this
                       | Some f \<Rightarrow> if f = [] then backup_filename this else f);
             d1 = fs_mkdir_parent target (disk this);
             (unlinked, d2) = fs_unlink target d1
         in if \<not> unlinked then (resp (- 4082) False, this\<lparr>disk := d2\<rparr>)
            else
              (let this1 = this\<lparr>disk := d2, busy := True\<rparr>;
                   (copied, d3) = fs_copyFile (filename this1) target d2
               in if \<not> copied then (resp 500 False, this1\<lparr>disk := d3\<rparr>)
                  else (resp 200 True, this1\<lparr>disk := d3, busy := False\<rparr>))))"

definition vacuum :: "database \<Rightarrow> api_response \<times> database" where
  "vacuum this =
     (if busy this then (resp 429 False, this)
      else
        (let this1 = this\<lparr>busy := True\<rparr>;
             (err, e1) = (case db_run Vacuum (db this1) of (None, e1) \<Rightarrow> (True, e1)
                          | (Some _, e1) \<Rightarrow> (False, e1))
         in (resp (if err then 500 else 200) (\<not> err), this1\<lparr>db := e1, busy := False\<rparr>)))"

subsection \<open>Row access\<close>

text \<open>\<open>equality ? equality : '='\<close>: an absent or empty operator is \<open>=\<close>.\<close>

definition op_text :: "string option \<Rightarrow> string" where
  "op_text equality = (case equality of None \<Rightarrow> ''='' | Some op \<Rightarrow> if op = [] then ''='' else op)"

text \<open>\<open>limit >= 0 ? LIMIT limit : ''\<close>: an absent or negative limit is no limit.\<close>

definition limit_of :: "int option \<Rightarrow> nat option" where
  "limit_of limit = (case limit of None \<Rightarrow> None | Some n \<Rightarrow> if 0 \<le> n then Some (nat n) else None)"

definition addValues :: "string \<Rightarrow> val list \<Rightarrow> engine \<Rightarrow> api_response \<times> engine" where
  "addValues table args e =
     (case db_run (InsertValues table args) e of
        (None, e1) \<Rightarrow> (resp_code 500, e1)
      | (Some _, e1) \<Rightarrow> (resp_changes 200 True 1, e1))"

definition setValue ::
  "string \<Rightarrow> string \<Rightarrow> val \<Rightarrow> string \<Rightarrow> val \<Rightarrow> engine \<Rightarrow> api_response \<times> engine" where
  "setValue table field v search_field search_value e =
     (case db_run (UpdateWhere table field v search_field search_value) e of
        (None, e1) \<Rightarrow> (resp_changes 500 False 0, e1)
      | (Some n, e1) \<Rightarrow> (resp_changes 200 (n > 0) n, e1))"

definition valueExists ::
  "string \<Rightarrow> string \<Rightarrow> val \<Rightarrow> string option \<Rightarrow> engine \<Rightarrow> api_response \<times> engine" where
  "valueExists table field v equality e =
     (case db_get (SelectExists table field (op_text equality) v) e of
        (None, e1) \<Rightarrow> (resp 500 False, e1)
      | (Some r, e1) \<Rightarrow> (resp 200 (r \<noteq> None), e1))"

text \<open>
  \<open>getRows\<close>: the operator \<open>*\<close> drops the condition. The envelope comes with the
  field \<open>rows\<close> (\<open>None\<close> for \<open>null\<close>).
\<close>

definition getRows ::
  "string \<Rightarrow> string \<Rightarrow> val \<Rightarrow> string option \<Rightarrow> int option \<Rightarrow> engine
     \<Rightarrow> (api_response \<times> obj list option) \<times> engine" where
  "getRows table field v equality limit e =
     (case db_all (if equality = Some ''*'' then SelectAll table (limit_of limit)
                   else SelectWhere table field (op_text equality) v (limit_of limit)) e of
        (None, e1) \<Rightarrow> ((resp_code 500, None), e1)
      | (Some rs, e1) \<Rightarrow> ((resp_code 200, Some rs), e1))"

text \<open>\<open>getRow\<close>: \<open>{ code: result.code, row: result.rows?.[0] || null }\<close>.\<close>

definition getRow ::
  "string \<Rightarrow> string \<Rightarrow> val \<Rightarrow> string option \<Rightarrow> engine \<Rightarrow> (api_response \<times> obj option) \<times> engine" where
  "getRow table field v equality e =
     (let ((result, rs), e1) = getRows table field v equality (Some 1) e
      in ((resp_code (code result),
           (case rs of None \<Rightarrow> None | Some [] \<Rightarrow> None | Some (r # _) \<Rightarrow> Some r)), e1))"

definition deleteRows ::
  "string \<Rightarrow> string \<Rightarrow> val \<Rightarrow> string option \<Rightarrow> int option \<Rightarrow> engine \<Rightarrow> api_response \<times> engine" where
  "deleteRows table field v equality limit e =
     (case db_run (DeleteWhere table field (op_text equality) v (limit_of limit)) e of
        (None, e1) \<Rightarrow> (resp_changes 500 False 0, e1)
      | (Some n, e1) \<Rightarrow> (resp_changes 200 (n > 0) n, e1))"

definition deleteRow ::
  "string \<Rightarrow> string \<Rightarrow> val \<Rightarrow> string option \<Rightarrow> engine \<Rightarrow> api_response \<times> engine" where
  "deleteRow table field v equality e = deleteRows table field v equality (Some 1) e"

definition moveRows ::
  "string \<Rightarrow> string \<Rightarrow> string \<Rightarrow> val \<Rightarrow> string option \<Rightarrow> int option \<Rightarrow> engine
     \<Rightarrow> api_response \<times> engine" where
  "moveRows from_table to_table field v equality limit e =
     (let (result, e1) =
        (case db_run (InsertMove to_table from_table field (op_text equality) v (limit_of limit)) e of
           (None, e1) \<Rightarrow> (resp_changes 500 False 0, e1)
         | (Some n, e1) \<Rightarrow> (resp_changes 200 (n > 0) n, e1))
      in if code result \<noteq> 200 then (result, e1)
         else deleteRows from_table field v equality limit e1)"

subsection \<open>Generated models\<close>

text \<open>
  The class \<open>BaseModel\<close> that \<open>_generateModels\<close> builds for a table closes over
  \<open>tableName\<close> and \<open>schema\<close>; here a model is this pair, passed to every method.
\<close>

type_synonym model = "string \<times> table_schema"

text \<open>\<open>schema.find(col => col.pkey)?.name\<close>\<close>

definition primaryKeyColumn :: "table_schema \<Rightarrow> string option" where
  "primaryKeyColumn schema = map_option name (find pkey schema)"

text \<open>\<open>!primaryKeyColumn\<close>: true for \<open>undefined\<close> and for the empty string.\<close>

definition no_pkey :: "string option \<Rightarrow> bool" where
  "no_pkey pk = (pk = None \<or> pk = Some [])"

text \<open>The configuration error: \<open>Cannot <what>: No primary key (pkey: true) defined for table '<t>'.\<close>\<close>

definition no_pkey_error :: "string \<Rightarrow> string \<Rightarrow> js_error" where
  "no_pkey_error what tableName =
     Error (''Cannot '' @ what @ '': No primary key (pkey: true) defined for table ''
            @ [CHR 0x27] @ tableName @ [CHR 0x27] @ ''.'')"

text \<open>
  An instance is a JavaScript object: the constructor stores, for every column, the
  value under the column's name and a copy under \<open>_original_<name>\<close>. The instance is
  modelled as this one bag of properties, as in the source. The property \<open>_db\<close> and the
  methods of the prototype are not in the bag: columns are taken not to be named like one
  of them, nor like a property of \<open>Object.prototype\<close>.
\<close>

type_synonym model_instance = "string \<rightharpoonup> val"

definition field_of :: "model_instance \<Rightarrow> string \<Rightarrow> val" where
  "field_of this k = (case this k of None \<Rightarrow> Undefined | Some v \<Rightarrow> v)"

definition original_key :: "string \<Rightarrow> string" where
  "original_key n = ''_original_'' @ n"

text \<open>\<open>schema.forEach((column, index) => { ... args[index] ... })\<close>; a missing argument is \<open>undefined\<close>.\<close>

fun assign_args :: "table_schema \<Rightarrow> val list \<Rightarrow> model_instance \<Rightarrow> model_instance" where
  "assign_args [] args this = this"
| "assign_args (col # cs) args this =
     (let arg = (case args of [] \<Rightarrow> Undefined | a # _ \<Rightarrow> a)
      in assign_args cs (tl args) (this(original_key (name col) \<mapsto> arg, name col \<mapsto> arg)))"

definition construct :: "table_schema \<Rightarrow> val list \<Rightarrow> model_instance" where
  "construct schema args = assign_args schema args Map.empty"

definition static_create :: "model \<Rightarrow> val list \<Rightarrow> model_instance" where
  "static_create mdl args = construct (snd mdl) args"

text \<open>
  \<open>toObject(sensitive)\<close>: the entries given to \<open>Object.fromEntries\<close>. Entries with the
  same key carry the same value, so reading a key with \<open>get_prop\<close> is reading the object.
\<close>

definition toObject :: "table_schema \<Rightarrow> bool \<Rightarrow> model_instance \<Rightarrow> obj" where
  "toObject schema sens this =
     map (\<lambda>col. (name col, field_of this (name col)))
       (filter (\<lambda>col. sens \<or> \<not> sensitive col) schema)"

definition fromObject :: "table_schema \<Rightarrow> obj \<Rightarrow> model_instance" where
  "fromObject schema ob = construct schema (map (\<lambda>col. get_prop ob (name col)) schema)"

text \<open>
  The conversion of a string to a number by \<open>==\<close>: surrounding white space is dropped,
  the empty string is \<open>0\<close>, an optionally signed run of decimal digits is its value.
  Every other string compares unequal to every integer here (the hexadecimal, exponent
  and fraction notations of an integer are not modelled).
\<close>

definition is_space :: "char \<Rightarrow> bool" where
  "is_space c = (c \<in> set [CHR '' '', CHR 0x09, CHR 0x0A, CHR 0x0B, CHR 0x0C, CHR 0x0D])"

definition is_digit :: "char \<Rightarrow> bool" where
  "is_digit c = (48 \<le> (of_char c :: nat) \<and> (of_char c :: nat) \<le> 57)"

definition digits_value :: "string \<Rightarrow> int" where
  "digits_value ds = foldl (\<lambda>acc c. 10 * acc + (int (of_char c) - 48)) 0 ds"

definition trim :: "string \<Rightarrow> string" where
  "trim s = rev (dropWhile is_space (rev (dropWhile is_space s)))"

definition to_number :: "string \<Rightarrow> int option" where
  "to_number s =
     (case trim s of
        [] \<Rightarrow> Some 0
      | c # cs \<Rightarrow>
          if c = CHR ''-'' \<and> cs \<noteq> [] \<and> list_all is_digit cs then Some (- digits_value cs)
          else if c = CHR ''+'' \<and> cs \<noteq> [] \<and> list_all is_digit cs then Some (digits_value cs)
          else if list_all is_digit (c # cs) then Some (digits_value (c # cs))
          else None)"

text \<open>The loose equality \<open>==\<close> and its negation \<open>!=\<close> on values.\<close>

fun loose_eq :: "val \<Rightarrow> val \<Rightarrow> bool" where
  "loose_eq (Num a) (Num b) = (a = b)"
| "loose_eq (Str a) (Str b) = (a = b)"
| "loose_eq (Num a) (Str b) = (to_number b = Some a)"
| "loose_eq (Str a) (Num b) = (to_number a = Some b)"
| "loose_eq (Num a) _ = False"
| "loose_eq (Str a) _ = False"
| "loose_eq _ (Num b) = False"
| "loose_eq _ (Str b) = False"
| "loose_eq _ _ = True"

definition loose_ne :: "val \<Rightarrow> val \<Rightarrow> bool" where
  "loose_ne a b = (\<not> loose_eq a b)"

text \<open>
  \<open>schema.filter(col => !col.pkey).filter(col => this[col.name] !=
  this[`_original_${col.name}`])\<close>
\<close>

definition changed_columns :: "table_schema \<Rightarrow> model_instance \<Rightarrow> column list" where
  "changed_columns schema this =
     filter (\<lambda>col. loose_ne (field_of this (name col)) (field_of this (original_key (name col))))
       (filter (\<lambda>col. \<not> pkey col) schema)"

text \<open>\<open>update.forEach(col => this[`_original_${col.name}`] = this[col.name])\<close>\<close>

fun refresh :: "column list \<Rightarrow> model_instance \<Rightarrow> model_instance" where
  "refresh [] this = this"
| "refresh (col # cs) this =
     refresh cs (this(original_key (name col) \<mapsto> field_of this (name col)))"

text \<open>
  \<open>update.map(col => this._db.setValue(tableName, col.name, this[col.name],
  primaryKeyColumn, pkValue))\<close>, the statements running in the order issued.
\<close>

fun set_columns ::
  "string \<Rightarrow> column list \<Rightarrow> model_instance \<Rightarrow> string \<Rightarrow> val \<Rightarrow> engine \<Rightarrow> api_response list \<times> engine" where
  "set_columns tableName [] this pk pkValue e = ([], e)"
| "set_columns tableName (col # cs) this pk pkValue e =
     (let (r, e1) = setValue tableName (name col) (field_of this (name col)) pk pkValue e;
          (rs, e2) = set_columns tableName cs this pk pkValue e1
      in (r # rs, e2))"

text \<open>
  An asynchronous method of a model returns a promise that is rejected with the thrown
  error (\<open>Inl\<close>) or fulfilled (\<open>Inr\<close>); the engine after the call comes beside it.
\<close>

definition save ::
  "model \<Rightarrow> model_instance \<Rightarrow> engine \<Rightarrow> (js_error + (api_response \<times> model_instance)) \<times> engine" where
  "save mdl this e =
     (let tableName = fst mdl; schema = snd mdl in
      if no_pkey (primaryKeyColumn schema) then (Inl (no_pkey_error ''save'' tableName), e)
      else
        (let pk = the (primaryKeyColumn schema);
             pkValue = field_of this pk;
             update = changed_columns schema this;
             (existsResult, e1) = valueExists tableName pk pkValue None e
         in if \<not> truthy_status existsResult
            then (let (result, e2) = addValues tableName (map (\<lambda>col. field_of this (name col)) schema) e1
                  in (Inr (result, (if truthy_status result then refresh update this else this)), e2))
            else (let (results, e2) = set_columns tableName update this pk pkValue e1;
                      result = list_all truthy_status results
                  in (Inr (resp_changes (if result then 200 else 500) result (if result then 1 else 0),
                           (if result then refresh update this else this)), e2))))"

definition delete :: "model \<Rightarrow> model_instance \<Rightarrow> engine \<Rightarrow> (js_error + api_response) \<times> engine" where
  "delete mdl this e =
     (let tableName = fst mdl; schema = snd mdl in
      if no_pkey (primaryKeyColumn schema) then (Inl (no_pkey_error ''delete'' tableName), e)
      else (let (r, e1) = deleteRow tableName (the (primaryKeyColumn schema))
                            (field_of this (the (primaryKeyColumn schema))) None e
            in (Inr r, e1)))"

definition move ::
  "model \<Rightarrow> model_instance \<Rightarrow> model \<Rightarrow> engine \<Rightarrow> (js_error + api_response) \<times> engine" where
  "move mdl this to_model e =
     (let tableName = fst mdl; schema = snd mdl in
      if no_pkey (primaryKeyColumn schema) then (Inl (no_pkey_error ''move'' tableName), e)
      else (let (r, e1) = moveRows tableName (fst to_model) (the (primaryKeyColumn schema))
                            (field_of this (the (primaryKeyColumn schema))) None None e
            in (Inr r, e1)))"

text \<open>\<open>convert(to_model)\<close>: \<open>None\<close> is the \<open>null\<close> returned when the save fails.\<close>

definition convert ::
  "model \<Rightarrow> model_instance \<Rightarrow> model \<Rightarrow> engine \<Rightarrow> (js_error + model_instance option) \<times> engine" where
  "convert mdl this to_model e =
     (let tableName = fst mdl; schema = snd mdl in
      if no_pkey (primaryKeyColumn schema) then (Inl (no_pkey_error ''convert'' tableName), e)
      else
        (let data = toObject schema True this;
             newInstance = fromObject (snd to_model) data
         in case save to_model newInstance e of
              (Inl x, e1) \<Rightarrow> (Inl x, e1)
            | (Inr (saveResult, newInstance1), e1) \<Rightarrow>
                if \<not> truthy_status saveResult then (Inr None, e1)
                else (case delete mdl this e1 of
                        (Inl x, e2) \<Rightarrow> (Inl x, e2)
                      | (Inr _, e2) \<Rightarrow> (Inr (Some newInstance1), e2))))"

definition static_find ::
  "model \<Rightarrow> val \<Rightarrow> engine \<Rightarrow> (js_error + model_instance option) \<times> engine" where
  "static_find mdl pkeyValue e =
     (let tableName = fst mdl; schema = snd mdl in
      if no_pkey (primaryKeyColumn schema) then (Inl (no_pkey_error ''find'' tableName), e)
      else (let ((_, r), e1) = getRow tableName (the (primaryKeyColumn schema)) pkeyValue None e
            in (Inr (map_option (fromObject schema) r), e1)))"

definition static_delete :: "model \<Rightarrow> val \<Rightarrow> engine \<Rightarrow> (js_error + api_response) \<times> engine" where
  "static_delete mdl pkeyValue e =
     (let tableName = fst mdl; schema = snd mdl in
      if no_pkey (primaryKeyColumn schema) then (Inl (no_pkey_error ''find'' tableName), e)
      else (let (r, e1) = deleteRow tableName (the (primaryKeyColumn schema)) pkeyValue None e
            in (Inr r, e1)))"

definition static_all :: "model \<Rightarrow> engine \<Rightarrow> (js_error + model_instance list) \<times> engine" where
  "static_all mdl e =
     (let ((_, rs), e1) = getRows (fst mdl) [] Null (Some ''*'') None e
      in (Inr (map (fromObject (snd mdl)) (case rs of None \<Rightarrow> [] | Some rs \<Rightarrow> rs)), e1))"

definition static_setValue ::
  "model \<Rightarrow> string \<Rightarrow> val \<Rightarrow> val \<Rightarrow> engine \<Rightarrow> (js_error + api_response) \<times> engine" where
  "static_setValue mdl field v pkeyValue e =
     (let tableName = fst mdl; schema = snd mdl in
      if no_pkey (primaryKeyColumn schema) then (Inl (no_pkey_error ''setValue'' tableName), e)
      else (let (r, e1) = setValue tableName field v (the (primaryKeyColumn schema)) pkeyValue e
            in (Inr r, e1)))"

text \<open>The helpers of \<open>Model.columns.<column>\<close>; \<open>col\<close> is the column's name.\<close>

definition column_setValue ::
  "model \<Rightarrow> string \<Rightarrow> val \<Rightarrow> val \<Rightarrow> engine \<Rightarrow> (js_error + api_response) \<times> engine" where
  "column_setValue mdl col pkeyValue v e =
     (let tableName = fst mdl; schema = snd mdl in
      if no_pkey (primaryKeyColumn schema) then (Inl (no_pkey_error ''setValue'' tableName), e)
      else (let (r, e1) = setValue tableName col v (the (primaryKeyColumn schema)) pkeyValue e
            in (Inr r, e1)))"

definition column_fetch ::
  "model \<Rightarrow> string \<Rightarrow> val \<Rightarrow> string option \<Rightarrow> engine \<Rightarrow> (js_error + model_instance list) \<times> engine" where
  "column_fetch mdl col v equality e =
     (let ((_, rs), e1) = getRows (fst mdl) col v equality None e
      in (Inr (map (fromObject (snd mdl)) (case rs of None \<Rightarrow> [] | Some rs \<Rightarrow> rs)), e1))"

definition column_move ::
  "model \<Rightarrow> string \<Rightarrow> model \<Rightarrow> val \<Rightarrow> string option \<Rightarrow> engine \<Rightarrow> (js_error + api_response) \<times> engine" where
  "column_move mdl col to_model v equality e =
     (let (r, e1) = moveRows (fst mdl) (fst to_model) col v equality None e in (Inr r, e1))"


text \<open>
  How a call completes for its caller. A method declared \<open>async\<close> never throws to its
  caller: the call returns a promise, and what the body throws rejects that promise.
  The methods \<open>save\<close>, \<open>delete\<close>, \<open>move\<close>, \<open>convert\<close>, \<open>find\<close>, \<open>all\<close> and
  \<open>setValue\<close> of a model and the four helpers of a column are declared \<open>async\<close>;
  \<open>create\<close>, \<open>fromObject\<close> and \<open>toObject\<close> are not, and throw nothing.
\<close>

datatype 'a completion = Thrown js_error | Rejected js_error | Fulfilled 'a

definition async :: "(js_error + 'a) \<times> engine \<Rightarrow> 'a completion \<times> engine" where
  "async r = (case fst r of Inl x \<Rightarrow> Rejected x | Inr v \<Rightarrow> Fulfilled v, snd r)"

subsection \<open>Notions the properties are stated with\<close>

text \<open>The rows of a table that satisfy \<open>"field" op ?\<close>, by the engine's comparison.\<close>

definition selected_rows :: "ptable \<Rightarrow> string \<Rightarrow> string \<Rightarrow> val \<Rightarrow> val list list" where
  "selected_rows t field op v =
     (case col_index field (cols t) of
        None \<Rightarrow> []
      | Some i \<Rightarrow> filter (\<lambda>r. sql_test op (cell i r) (bind v) = Some True) (rows t))"


text \<open>The statements a call has issued: what it appended to the engine's log.\<close>

definition issued_since :: "engine \<Rightarrow> engine \<Rightarrow> stmt list" where
  "issued_since e e' = drop (length (issued e)) (issued e')"

text \<open>No column is named like the snapshot property of a column.\<close>

definition plain_names :: "table_schema \<Rightarrow> bool" where
  "plain_names schema =
     list_all (\<lambda>c. list_all (\<lambda>d. name c \<noteq> original_key (name d)) schema) schema"

text \<open>A statement that deletes rows.\<close>

fun is_delete :: "stmt \<Rightarrow> bool" where
  "is_delete (DeleteWhere n f op v l) = True"
| "is_delete _ = False"

text \<open>A statement that only reads the catalogue.\<close>

fun is_query :: "stmt \<Rightarrow> bool" where
  "is_query (SelectTable n) = True"
| "is_query SelectTables = True"
| "is_query (TableInfo n) = True"
| "is_query _ = False"

text \<open>
  Storage conforms to the declared schema under the given options: every declared table
  exists and holds every declared column; with \<open>delete_unused\<close>, no other column and no
  other table exists; with \<open>reorder\<close>, the declared columns come first, in declared order.
\<close>

definition table_conforms :: "bool \<Rightarrow> bool \<Rightarrow> table_schema \<Rightarrow> ptable \<Rightarrow> bool" where
  "table_conforms del_unused reord flds t =
     (list_all (\<lambda>f. name f \<in> set (map fst (cols t))) flds
      \<and> (\<not> del_unused \<or> list_all (\<lambda>c. fst c \<in> set (map name flds)) (cols t))
      \<and> (\<not> reord \<or> take (length flds) (map fst (cols t)) = map name flds))"

definition conformant :: "bool \<Rightarrow> bool \<Rightarrow> database_tables \<Rightarrow> (string \<times> ptable) list \<Rightarrow> bool" where
  "conformant del_unused reord tabs m =
     (list_all (\<lambda>(table, flds). case map_of m table of None \<Rightarrow> False
                  | Some t \<Rightarrow> table_conforms del_unused reord flds t) tabs
      \<and> (\<not> del_unused \<or> list_all (\<lambda>e. map_of tabs (fst e) \<noteq> None) m))"

text \<open>
  A call was quiet: it left storage and the engine's oracle as they were, and every
  statement it issued only reads the catalogue.
\<close>

definition quiet :: "engine \<Rightarrow> engine \<Rightarrow> bool" where
  "quiet e e' =
     (master e' = master e \<and> refuses e' = refuses e
      \<and> take (length (issued e)) (issued e') = issued e
      \<and> list_all is_query (issued_since e e'))"

subsection \<open>Example configurations\<close>

text \<open>
  The table \<open>items\<close> of the specification's example (\<open>id\<close> text and key, \<open>url\<close> text,
  \<open>size\<close> integer), an engine and a disk that refuse nothing, and a database object over
  them, as the constructor leaves it.
\<close>

definition plain_column :: "string \<Rightarrow> string \<Rightarrow> bool \<Rightarrow> column" where
  "plain_column n ty pk = \<lparr>old = None, name = n, type = ty, pkey = pk, sensitive = False,
                   default_value = Undefined\<rparr>"

definition items_schema :: table_schema where
  "items_schema = [plain_column ''id'' ''TEXT'' True, plain_column ''url'' ''TEXT'' False, plain_column ''size'' ''INTEGER'' False]"

definition engine_of :: "(string \<times> ptable) list \<Rightarrow> engine" where
  "engine_of m = \<lparr>master = m, refuses = (\<lambda>_ _. False), issued = []\<rparr>"

definition disk_of :: "(string \<times> string) list \<Rightarrow> fsys" where
  "disk_of fs = \<lparr>files = fs, fs_refuses = (\<lambda>_. False), fs_log = []\<rparr>"

definition app_database :: "database_tables \<Rightarrow> engine \<Rightarrow> fsys \<Rightarrow> database" where
  "app_database tabs e d =
     \<lparr>filename = ''data/app.db'', backup_filename = ''data/app.db.bak'',
      delete_unused = False, reorder = False, tables = tabs,
      backup_enabled = True, vacuum_enabled = False, ready = False, busy = False,
      backup_timer = False, vacuum_timer = False, open_error = False,
      db = e, disk = d\<rparr>"

text \<open>A first run: the storage file exists, no backup has been written yet.\<close>

definition first_run :: database where
  "first_run = app_database [(''items'', items_schema)] (engine_of [])
                 (disk_of [(''data/app.db'', ''live'')])"

text \<open>A later run on a disk that refuses the copy (no space left).\<close>

definition full_disk :: database where
  "full_disk = app_database [(''items'', items_schema)] (engine_of [])
     \<lparr>files = [(''data/app.db'', ''live''), (''data/app.db.bak'', ''stale'')],
      fs_refuses = (\<lambda>op. op = CopyFile ''data/app.db'' ''data/app.db.bak''),
      fs_log = []\<rparr>"

text \<open>A maintenance operation is in flight.\<close>

definition busy_database :: database where
  "busy_database = (first_run\<lparr>busy := True\<rparr>)"

text \<open>
  A second table \<open>archive\<close> whose column \<open>note\<close> declares the default value \<open>none\<close>
  and has no counterpart in \<open>items\<close>; \<open>items\<close> has the column \<open>size\<close> that \<open>archive\<close>
  lacks. Storage holds both tables, and one row of \<open>items\<close>.
\<close>

definition archive_schema :: table_schema where
  "archive_schema =
     [plain_column ''id'' ''TEXT'' True, plain_column ''url'' ''TEXT'' False,
      (plain_column ''note'' ''TEXT'' False)\<lparr>default_value := Str ''none''\<rparr>]"

definition item_a :: model_instance where
  "item_a = construct items_schema [Str ''a'', Str ''http://x'', Num 10]"

definition two_tables :: "(string \<times> ptable) list" where
  "two_tables =
     [(''items'', \<lparr>cols = [(''id'', ''TEXT''), (''url'', ''TEXT''), (''size'', ''INTEGER'')],
                   rows = [[Str ''a'', Str ''http://x'', Num 10]]\<rparr>),
      (''archive'', \<lparr>cols = [(''id'', ''TEXT''), (''url'', ''TEXT''), (''note'', ''TEXT'')],
                     rows = []\<rparr>)]"

text \<open>A table declared without a primary key, and an instance of its model.\<close>

definition log_schema :: table_schema where
  "log_schema = [plain_column ''line'' ''TEXT'' False, plain_column ''level'' ''INTEGER'' False]"

definition log_entry :: model_instance where
  "log_entry = construct log_schema [Str ''started'', Num 1]"

text \<open>The same storage behind an engine that refuses every \<open>INSERT\<close> into \<open>archive\<close>.\<close>

definition archive_full :: engine where
  "archive_full =
     \<lparr>master = two_tables,
      refuses = (\<lambda>_ s. case s of InsertValues n vs \<Rightarrow> n = ''archive'' | _ \<Rightarrow> False),
      issued = []\<rparr>"

text \<open>
  Storage left by an older version: \<open>items\<close> has the column \<open>link\<close> (since renamed to
  \<open>url\<close>), a column \<open>junk\<close> that is no longer declared, no column \<open>size\<close> yet, and the
  key comes last; a table \<open>old_stuff\<close> is no longer declared. The database object asks
  for unused tables and columns to be deleted and for columns to be reordered.
\<close>

definition items_schema_v2 :: table_schema where
  "items_schema_v2 =
     [plain_column ''id'' ''TEXT'' True,
      (plain_column ''url'' ''TEXT'' False)\<lparr>old := Some ''link''\<rparr>,
      (plain_column ''size'' ''INTEGER'' False)\<lparr>default_value := Num 0\<rparr>]"

definition legacy_tables :: "(string \<times> ptable) list" where
  "legacy_tables =
     [(''old_stuff'', \<lparr>cols = [(''x'', ''TEXT'')], rows = [[Str ''gone'']]\<rparr>),
      (''items'', \<lparr>cols = [(''link'', ''TEXT''), (''junk'', ''TEXT''), (''id'', ''TEXT'')],
                   rows = [[Str ''http://x'', Str ''?'', Str ''a'']]\<rparr>)]"

definition legacy_database :: database where
  "legacy_database =
     (app_database [(''items'', items_schema_v2)] (engine_of legacy_tables)
        (disk_of [(''data/app.db'', ''live'')]))\<lparr>delete_unused := True, reorder := True\<rparr>"

text \<open>The database object after a first \<open>open()\<close> on that storage.\<close>

definition migrated_database :: database where
  "migrated_database =
     (case open_db (\<lambda>_. 7) legacy_database of Inr (r, d) \<Rightarrow> d | Inl _ \<Rightarrow> legacy_database)"

text \<open>A first run against an engine that refuses every \<open>CREATE TABLE\<close>.\<close>

definition create_refused :: database where
  "create_refused =
     app_database [(''items'', items_schema)]
       \<lparr>master = [], refuses = (\<lambda>_ s. case s of CreateTable n cs \<Rightarrow> True | _ \<Rightarrow> False),
        issued = []\<rparr>
       (disk_of [(''data/app.db'', ''live'')])"

text \<open>Storage that holds the key-less table \<open>log\<close> with two rows.\<close>

definition log_table :: ptable where
  "log_table = \<lparr>cols = [(''line'', ''TEXT''), (''level'', ''INTEGER'')],
                 rows = [[Str ''started'', Num 1], [Str ''stopped'', Num 2]]\<rparr>"

definition log_storage :: engine where
  "log_storage = engine_of [(''log'', log_table)]"

text \<open>
  Storage in which \<open>archive\<close> already holds a row with the key \<open>a\<close> of the row of
  \<open>items\<close>, with other values.
\<close>

definition archive_taken :: "(string \<times> ptable) list" where
  "archive_taken =
     [(''items'', \<lparr>cols = [(''id'', ''TEXT''), (''url'', ''TEXT''), (''size'', ''INTEGER'')],
                   rows = [[Str ''a'', Str ''http://x'', Num 10]]\<rparr>),
      (''archive'', \<lparr>cols = [(''id'', ''TEXT''), (''url'', ''TEXT''), (''note'', ''TEXT'')],
                     rows = [[Str ''a'', Str ''http://old'', Str ''kept'']]\<rparr>)]"

section \<open>Properties\<close>

subsection \<open>Backup and the busy signal\<close>

text \<open>
  C5. When \<open>backup()\<close> is invoked while the busy signal is set, it returns status code
  429 with success false, performs no file operation (the log of file operations and the
  files are as before), and leaves the busy signal, the engine and every other field of
  the database object unchanged.
\<close>

theorem backup_busy_rejected:
  assumes "busy this" and "backup fname this = (r, this')"
  shows "code r = 429 \<and> status r = Some False \<and> this' = this
         \<and> fs_log (disk this') = fs_log (disk this) \<and> files (disk this') = files (disk this)
         \<and> busy this' \<and> db this' = db this"
  using assms by (auto simp add: backup_def resp_def)

theorem backup_busy_rejected_witness:
  "busy busy_database
   \<and> code (fst (backup None busy_database)) = 429
   \<and> status (fst (backup None busy_database)) = Some False
   \<and> snd (backup None busy_database) = busy_database
   \<and> fs_log (disk (snd (backup None busy_database))) = []"
proof -
  have b: "busy busy_database"
    by (simp add: busy_database_def)
  have l: "fs_log (disk busy_database) = []"
    by (simp add: busy_database_def first_run_def app_database_def disk_of_def)
  from backup_busy_rejected [OF b, of None "fst (backup None busy_database)" "snd (backup None busy_database)"]
  show ?thesis using b l by simp
qed

text \<open>
  C3. On a first run no file exists at the destination, so removing the stale file fails.
  \<open>backup()\<close> then returns the code \<open>-4082\<close> at once: the file operations it made are the
  \<open>mkdir\<close> and the failed \<open>unlink\<close>, the live storage file is not copied, and no
  file exists at the destination afterwards.
\<close>

theorem backup_first_run_returns_before_copy:
  "\<not> busy first_run
   \<and> map_of (files (disk first_run)) ''data/app.db.bak'' = None
   \<and> fst (backup None first_run) = resp (- 4082) False
   \<and> fs_log (disk (snd (backup None first_run)))
       = [MkdirParent ''data/app.db.bak'', Unlink ''data/app.db.bak'']
   \<and> map_of (files (disk (snd (backup None first_run)))) ''data/app.db.bak'' = None"
  by (simp add: backup_def first_run_def app_database_def disk_of_def fs_mkdir_parent_def
      fs_unlink_def fs_note_def Let_def)

text \<open>
  C4. When the copy fails, \<open>backup()\<close> returns 500 with the busy signal still set: every
  later \<open>backup()\<close> and \<open>vacuum()\<close> is rejected as busy.
\<close>

theorem backup_copy_failure_keeps_busy:
  "\<not> busy full_disk
   \<and> fst (backup None full_disk) = resp 500 False
   \<and> busy (snd (backup None full_disk))
   \<and> fst (backup None (snd (backup None full_disk))) = resp 429 False
   \<and> fst (vacuum (snd (backup None full_disk))) = resp 429 False"
  by (simp add: backup_def vacuum_def full_disk_def app_database_def fs_mkdir_parent_def
      fs_unlink_def fs_copyFile_def fs_note_def Let_def)

subsection \<open>Updates that match no row\<close>








subsection \<open>Conversion and declared defaults\<close>

text \<open>
  C6. The column \<open>note\<close> of \<open>archive\<close> declares the default value \<open>none\<close> and has no
  counterpart among the fields of an \<open>items\<close> instance. In the instance that
  \<open>convert\<close> builds and returns, \<open>note\<close> is \<open>undefined\<close>, and the row it inserts holds
  \<open>NULL\<close> there: the declared default is not consulted. The field \<open>size\<close>, which
  \<open>archive\<close> does not declare, is ignored.
\<close>

theorem convert_missing_field_is_undefined:
  "map default_value archive_schema = [Undefined, Undefined, Str ''none'']
   \<and> map_sum id (map_option (\<lambda>i. map (field_of i) [''id'', ''url'', ''note'', ''size'']))
       (fst (convert (''items'', items_schema) item_a (''archive'', archive_schema)
               (engine_of two_tables)))
     = Inr (Some [Str ''a'', Str ''http://x'', Undefined, Undefined])
   \<and> map_of (master (snd (convert (''items'', items_schema) item_a (''archive'', archive_schema)
               (engine_of two_tables)))) ''archive''
     = Some \<lparr>cols = [(''id'', ''TEXT''), (''url'', ''TEXT''), (''note'', ''TEXT'')],
              rows = [[Str ''a'', Str ''http://x'', Null]]\<rparr>"
  by code_simp

subsection \<open>Saving an instance\<close>

lemma issued_db_run: "issued (snd (db_run s e)) = issued e @ [s]"
  by (simp add: db_run_def log_stmt_def split: option.splits prod.splits)

lemma snd_db_get: "snd (db_get s e) = snd (db_all s e)"
  by (simp add: db_get_def split: prod.splits option.splits)




lemma issued_valueExists:
  "issued (snd (valueExists t P v None e)) = issued e @ [SelectExists t P ''='' v]"
  by (simp add: valueExists_def op_text_def db_get_def db_all_def log_stmt_def split: option.splits prod.splits)

lemma master_valueExists: "master (snd (valueExists t P v equality e)) = master e"
  by (simp add: valueExists_def db_get_def db_all_def log_stmt_def split: option.splits prod.splits)


lemma issued_setValue:
  "issued (snd (setValue t f v sf sv e)) = issued e @ [UpdateWhere t f v sf sv]"
  using issued_db_run [of "UpdateWhere t f v sf sv" e]
  by (cases "db_run (UpdateWhere t f v sf sv) e") (auto simp: setValue_def split: option.splits)

lemma issued_set_columns:
  "issued (snd (set_columns t cs this P pkv e)) =
     issued e @ map (\<lambda>c. UpdateWhere t (name c) (field_of this (name c)) P pkv) cs"
proof (induction cs arbitrary: e)
  case Nil
  then show ?case by simp
next
  case (Cons c cs)
  obtain r e1 where s: "setValue t (name c) (field_of this (name c)) P pkv e = (r, e1)"
    by (cases "setValue t (name c) (field_of this (name c)) P pkv e")
  from issued_setValue [of t "name c" "field_of this (name c)" P pkv e] s
  have i1: "issued e1 = issued e @ [UpdateWhere t (name c) (field_of this (name c)) P pkv]"
    by simp
  from Cons [of e1] i1 s show ?case
    by (cases "set_columns t cs this P pkv e1") auto
qed

lemma issued_addValues: "issued (snd (addValues t vs e)) = issued e @ [InsertValues t vs]"
  using issued_db_run [of "InsertValues t vs" e]
  by (cases "db_run (InsertValues t vs) e") (auto simp: addValues_def split: option.splits)

lemma addValues_failed_master:
  assumes "\<not> truthy_status (fst (addValues t vs e))"
  shows "master (snd (addValues t vs e)) = master e"
  using assms
  by (auto simp: addValues_def db_run_def log_stmt_def truthy_status_def resp_changes_def
      split: option.splits prod.splits if_splits)

lemma loose_eq_refl: "loose_eq v v"
  by (cases v) simp_all


lemma plain_namesD:
  assumes "plain_names schema" "c \<in> set schema" "d \<in> set schema"
  shows "name c \<noteq> original_key (name d)"
  using assms by (auto simp: plain_names_def list_all_iff)


lemma original_key_inj: "original_key a = original_key b \<Longrightarrow> a = b"
  by (simp add: original_key_def)




lemma assign_args_other:
  assumes "\<forall>d \<in> set cs. k \<noteq> name d \<and> k \<noteq> original_key (name d)"
  shows "assign_args cs args this k = this k"
  using assms by (induction cs arbitrary: args this) (auto simp: Let_def)

lemma assign_args_snapshot:
  assumes "\<forall>d \<in> set cs. \<forall>d' \<in> set cs. name d \<noteq> original_key (name d')" "c \<in> set cs"
  shows "assign_args cs args this (original_key (name c)) = assign_args cs args this (name c)"
  using assms
proof (induction cs arbitrary: args this c)
  case Nil
  then show ?case by simp
next
  case (Cons d cs)
  define arg where "arg = (case args of [] \<Rightarrow> Undefined | a # _ \<Rightarrow> a)"
  define this1 where "this1 = this(original_key (name d) \<mapsto> arg, name d \<mapsto> arg)"
  have step: "assign_args (d # cs) args this = assign_args cs (tl args) this1"
    by (simp add: this1_def arg_def Let_def)
  have p: "\<forall>d \<in> set cs. \<forall>d' \<in> set cs. name d \<noteq> original_key (name d')"
    using Cons.prems(1) by simp
  show ?case
  proof (cases "name c \<in> name ` set cs")
    case True
    then obtain c' where c': "c' \<in> set cs" "name c' = name c" by auto
    from Cons.IH [OF p c'(1), of "tl args" this1] c'(2) step show ?thesis by simp
  next
    case False
    with Cons.prems(2) have cd: "c = d" by auto
    have k1: "\<forall>d' \<in> set cs. name c \<noteq> name d' \<and> name c \<noteq> original_key (name d')"
      using False Cons.prems(1) cd by auto
    have k2: "\<forall>d' \<in> set cs. original_key (name c) \<noteq> name d'
                \<and> original_key (name c) \<noteq> original_key (name d')"
      using False Cons.prems(1) cd by (auto dest: original_key_inj)
    have a: "assign_args cs (tl args) this1 (name c) = this1 (name c)"
      by (rule assign_args_other [OF k1])
    have b: "assign_args cs (tl args) this1 (original_key (name c)) = this1 (original_key (name c))"
      by (rule assign_args_other [OF k2])
    show ?thesis unfolding step a b by (simp add: this1_def cd)
  qed
qed

lemma construct_unchanged:
  assumes "plain_names schema"
  shows "changed_columns schema (construct schema args) = []"
proof -
  have p: "\<forall>d \<in> set schema. \<forall>d' \<in> set schema. name d \<noteq> original_key (name d')"
    using assms plain_namesD by blast
  have "\<not> loose_ne (field_of (construct schema args) (name c))
                    (field_of (construct schema args) (original_key (name c)))"
    if "c \<in> set schema" for c
    using assign_args_snapshot [OF p that, of args Map.empty]
    by (simp add: construct_def field_of_def loose_ne_def loose_eq_refl)
  then show ?thesis by (auto simp: changed_columns_def filter_empty_conv)
qed



subsection \<open>Converting an instance\<close>

lemma map_of_set_table_other: "k \<noteq> n \<Longrightarrow> map_of (set_table n t m) k = map_of m k"
  by (induction m) (auto simp: set_table_def)

lemma effect_insert_other:
  assumes "effect (InsertValues n vs) m = Some (m', c)" "k \<noteq> n"
  shows "map_of m' k = map_of m k"
proof (cases "map_of m n")
  case None
  with assms show ?thesis by simp
next
  case (Some t)
  with assms(1) have "m' = set_table n (t\<lparr>rows := rows t @ [map bind vs]\<rparr>) m"
    by (simp split: if_splits)
  with assms(2) show ?thesis by (simp add: map_of_set_table_other)
qed

lemma effect_update_other:
  assumes "effect (UpdateWhere n f v sf sv) m = Some (m', c)" "k \<noteq> n"
  shows "map_of m' k = map_of m k"
proof (cases "map_of m n")
  case None
  with assms show ?thesis by simp
next
  case (Some t)
  show ?thesis
  proof (cases "col_index f (cols t)")
    case None
    with Some assms show ?thesis by simp
  next
    case i: (Some i)
    show ?thesis
    proof (cases "matching t sf ''='' sv")
      case None
      with Some i assms show ?thesis by simp
    next
      case bs: (Some bs)
      with Some i assms(1) have "\<exists>t'. m' = set_table n t' m"
        by auto
      with assms(2) show ?thesis by (auto simp add: map_of_set_table_other)
    qed
  qed
qed

lemma db_run_cases:
  "snd (db_run s e) = log_stmt s e
   \<or> (\<exists>m c. effect s (master e) = Some (m, c) \<and> snd (db_run s e) = log_stmt s (e\<lparr>master := m\<rparr>))"
proof (cases "refuses e (issued e) s")
  case True
  then show ?thesis by (simp add: db_run_def)
next
  case False
  then show ?thesis by (cases "effect s (master e)") (auto simp: db_run_def)
qed

lemma master_log_stmt: "master (log_stmt s e) = master e"
  by (simp add: log_stmt_def)

lemma snd_setValue: "snd (setValue t f v sf sv e) = snd (db_run (UpdateWhere t f v sf sv) e)"
  by (cases "db_run (UpdateWhere t f v sf sv) e") (auto simp: setValue_def split: option.splits)

lemma snd_addValues: "snd (addValues t vs e) = snd (db_run (InsertValues t vs) e)"
  by (cases "db_run (InsertValues t vs) e") (auto simp: addValues_def split: option.splits)

lemma setValue_other:
  assumes "k \<noteq> t"
  shows "map_of (master (snd (setValue t f v sf sv e))) k = map_of (master e) k"
proof -
  from db_run_cases [of "UpdateWhere t f v sf sv" e] show ?thesis
  proof
    assume "snd (db_run (UpdateWhere t f v sf sv) e) = log_stmt (UpdateWhere t f v sf sv) e"
    then show ?thesis by (simp add: snd_setValue master_log_stmt)
  next
    assume "\<exists>m c. effect (UpdateWhere t f v sf sv) (master e) = Some (m, c)
              \<and> snd (db_run (UpdateWhere t f v sf sv) e) = log_stmt (UpdateWhere t f v sf sv) (e\<lparr>master := m\<rparr>)"
    then obtain m c where ef: "effect (UpdateWhere t f v sf sv) (master e) = Some (m, c)"
      and sn: "snd (db_run (UpdateWhere t f v sf sv) e) = log_stmt (UpdateWhere t f v sf sv) (e\<lparr>master := m\<rparr>)"
      by blast
    from effect_update_other [OF ef assms] sn show ?thesis
      by (simp add: snd_setValue master_log_stmt)
  qed
qed

lemma addValues_other:
  assumes "k \<noteq> t"
  shows "map_of (master (snd (addValues t vs e))) k = map_of (master e) k"
proof -
  from db_run_cases [of "InsertValues t vs" e] show ?thesis
  proof
    assume "snd (db_run (InsertValues t vs) e) = log_stmt (InsertValues t vs) e"
    then show ?thesis by (simp add: snd_addValues master_log_stmt)
  next
    assume "\<exists>m c. effect (InsertValues t vs) (master e) = Some (m, c)
              \<and> snd (db_run (InsertValues t vs) e) = log_stmt (InsertValues t vs) (e\<lparr>master := m\<rparr>)"
    then obtain m c where ef: "effect (InsertValues t vs) (master e) = Some (m, c)"
      and sn: "snd (db_run (InsertValues t vs) e) = log_stmt (InsertValues t vs) (e\<lparr>master := m\<rparr>)"
      by blast
    from effect_insert_other [OF ef assms] sn show ?thesis
      by (simp add: snd_addValues master_log_stmt)
  qed
qed

lemma set_columns_other:
  assumes "k \<noteq> t"
  shows "map_of (master (snd (set_columns t cs this P pkv e))) k = map_of (master e) k"
proof (induction cs arbitrary: e)
  case Nil
  then show ?case by simp
next
  case (Cons c cs)
  obtain r e1 where s: "setValue t (name c) (field_of this (name c)) P pkv e = (r, e1)"
    by (cases "setValue t (name c) (field_of this (name c)) P pkv e")
  from setValue_other [OF assms, of "name c" "field_of this (name c)" P pkv e] s
  have "map_of (master e1) k = map_of (master e) k" by simp
  with Cons [of e1] s show ?case
    by (cases "set_columns t cs this P pkv e1") auto
qed


lemma save_other:
  assumes "k \<noteq> fst mdl"
  shows "map_of (master (snd (save mdl this e))) k = map_of (master e) k"
proof (cases "no_pkey (primaryKeyColumn (snd mdl))")
  case True
  then show ?thesis by (simp add: save_def)
next
  case False
  let ?P = "the (primaryKeyColumn (snd mdl))"
  let ?pkv = "field_of this ?P"
  obtain x e1 where ve: "valueExists (fst mdl) ?P ?pkv None e = (x, e1)"
    by (cases "valueExists (fst mdl) ?P ?pkv None e")
  have m1: "master e1 = master e"
    using master_valueExists [of "fst mdl" ?P ?pkv None e] ve by simp
  show ?thesis
  proof (cases "truthy_status x")
    case True
    obtain rs e2 where sc: "set_columns (fst mdl) (changed_columns (snd mdl) this) this ?P ?pkv e1 = (rs, e2)"
      by (cases "set_columns (fst mdl) (changed_columns (snd mdl) this) this ?P ?pkv e1")
    from set_columns_other [OF assms, of "changed_columns (snd mdl) this" this ?P ?pkv e1] sc m1
    have "map_of (master e2) k = map_of (master e) k" by simp
    with False ve True sc show ?thesis by (simp add: save_def Let_def)
  next
    case nt: False
    let ?vs = "map (\<lambda>col. field_of this (name col)) (snd mdl)"
    obtain r e2 where av: "addValues (fst mdl) ?vs e1 = (r, e2)"
      by (cases "addValues (fst mdl) ?vs e1")
    from addValues_other [OF assms, of ?vs e1] av m1
    have "map_of (master e2) k = map_of (master e) k" by simp
    with False ve nt av show ?thesis by (simp add: save_def Let_def)
  qed
qed

lemma save_unchanged_instance_failed:
  assumes "changed_columns (snd mdl) this = []"
      and "save mdl this e = (Inr (r, i), e1)" "\<not> truthy_status r"
  shows "master e1 = master e"
proof -
  from assms(2) have npk: "\<not> no_pkey (primaryKeyColumn (snd mdl))"
    by (auto simp: save_def split: if_splits)
  let ?P = "the (primaryKeyColumn (snd mdl))"
  let ?pkv = "field_of this ?P"
  obtain x e0 where ve: "valueExists (fst mdl) ?P ?pkv None e = (x, e0)"
    by (cases "valueExists (fst mdl) ?P ?pkv None e")
  have m0: "master e0 = master e"
    using master_valueExists [of "fst mdl" ?P ?pkv None e] ve by simp
  show ?thesis
  proof (cases "truthy_status x")
    case True
    with assms npk ve show ?thesis
      by (auto simp add: save_def Let_def truthy_status_def resp_changes_def)
  next
    case False
    let ?vs = "map (\<lambda>col. field_of this (name col)) (snd mdl)"
    obtain r' e2 where av: "addValues (fst mdl) ?vs e0 = (r', e2)"
      by (cases "addValues (fst mdl) ?vs e0")
    with assms npk ve False have "r' = r" "e2 = e1"
      by (simp_all add: save_def Let_def)
    with av assms(3) addValues_failed_master [of "fst mdl" ?vs e0] m0 show ?thesis by simp
  qed
qed

lemma save_issues_no_delete:
  "\<forall>s \<in> set (issued_since e (snd (save mdl this e))). \<not> is_delete s"
proof (cases "no_pkey (primaryKeyColumn (snd mdl))")
  case True
  then show ?thesis by (simp add: save_def issued_since_def)
next
  case False
  let ?P = "the (primaryKeyColumn (snd mdl))"
  let ?pkv = "field_of this ?P"
  obtain x e1 where ve: "valueExists (fst mdl) ?P ?pkv None e = (x, e1)"
    by (cases "valueExists (fst mdl) ?P ?pkv None e")
  have i1: "issued e1 = issued e @ [SelectExists (fst mdl) ?P ''='' ?pkv]"
    using issued_valueExists [of "fst mdl" ?P ?pkv e] ve by simp
  show ?thesis
  proof (cases "truthy_status x")
    case True
    obtain rs e2 where sc: "set_columns (fst mdl) (changed_columns (snd mdl) this) this ?P ?pkv e1 = (rs, e2)"
      by (cases "set_columns (fst mdl) (changed_columns (snd mdl) this) this ?P ?pkv e1")
    from issued_set_columns [of "fst mdl" "changed_columns (snd mdl) this" this ?P ?pkv e1] sc i1
    have log: "issued_since e e2 = SelectExists (fst mdl) ?P ''='' ?pkv #
       map (\<lambda>c. UpdateWhere (fst mdl) (name c) (field_of this (name c)) ?P ?pkv) (changed_columns (snd mdl) this)"
      by (simp add: issued_since_def)
    from False ve True sc have eq: "snd (save mdl this e) = e2"
      by (simp add: save_def Let_def)
    show ?thesis unfolding eq log by (simp add: list_all_iff [symmetric] list.pred_map comp_def)
  next
    case nt: False
    let ?vs = "map (\<lambda>col. field_of this (name col)) (snd mdl)"
    obtain r e2 where av: "addValues (fst mdl) ?vs e1 = (r, e2)"
      by (cases "addValues (fst mdl) ?vs e1")
    from issued_addValues [of "fst mdl" ?vs e1] av i1
    have log: "issued_since e e2 = [SelectExists (fst mdl) ?P ''='' ?pkv, InsertValues (fst mdl) ?vs]"
      by (simp add: issued_since_def)
    from False ve nt av have eq: "snd (save mdl this e) = e2"
      by (simp add: save_def Let_def)
    show ?thesis unfolding eq log by simp
  qed
qed

lemma issued_save_prefix: "\<exists>xs. issued (snd (save mdl this e)) = issued e @ xs"
proof (cases "no_pkey (primaryKeyColumn (snd mdl))")
  case True
  then show ?thesis by (simp add: save_def)
next
  case False
  let ?P = "the (primaryKeyColumn (snd mdl))"
  let ?pkv = "field_of this ?P"
  obtain x e1 where ve: "valueExists (fst mdl) ?P ?pkv None e = (x, e1)"
    by (cases "valueExists (fst mdl) ?P ?pkv None e")
  have i1: "issued e1 = issued e @ [SelectExists (fst mdl) ?P ''='' ?pkv]"
    using issued_valueExists [of "fst mdl" ?P ?pkv e] ve by simp
  show ?thesis
  proof (cases "truthy_status x")
    case True
    obtain rs e2 where sc: "set_columns (fst mdl) (changed_columns (snd mdl) this) this ?P ?pkv e1 = (rs, e2)"
      by (cases "set_columns (fst mdl) (changed_columns (snd mdl) this) this ?P ?pkv e1")
    from issued_set_columns [of "fst mdl" "changed_columns (snd mdl) this" this ?P ?pkv e1] sc i1
    have pre: "\<exists>xs. issued e2 = issued e @ xs" by simp
    from False ve True sc have eq: "snd (save mdl this e) = e2"
      by (simp add: save_def Let_def)
    show ?thesis unfolding eq by (rule pre)
  next
    case nt: False
    let ?vs = "map (\<lambda>col. field_of this (name col)) (snd mdl)"
    obtain r e2 where av: "addValues (fst mdl) ?vs e1 = (r, e2)"
      by (cases "addValues (fst mdl) ?vs e1")
    from issued_addValues [of "fst mdl" ?vs e1] av i1
    have pre: "\<exists>xs. issued e2 = issued e @ xs" by simp
    from False ve nt av have eq: "snd (save mdl this e) = e2"
      by (simp add: save_def Let_def)
    show ?thesis unfolding eq by (rule pre)
  qed
qed

lemma issued_deleteRow:
  "issued (snd (deleteRow t f v None e)) = issued e @ [DeleteWhere t f ''='' v (Some 1)]"
proof -
  have "snd (deleteRow t f v None e) = snd (db_run (DeleteWhere t f ''='' v (Some 1)) e)"
    by (cases "db_run (DeleteWhere t f ''='' v (Some 1)) e")
       (auto simp: deleteRow_def deleteRows_def op_text_def limit_of_def split: option.splits)
  then show ?thesis by (simp add: issued_db_run)
qed

lemma save_rejected:
  assumes "save mdl this e = (Inl x, e1)"
  shows "e1 = e"
proof (cases "no_pkey (primaryKeyColumn (snd mdl))")
  case True
  with assms show ?thesis by (simp add: save_def)
next
  case False
  with assms show ?thesis
    by (simp add: save_def Let_def split: prod.splits if_splits)
qed

text \<open>
  What holds of \<open>convert\<close> for a model with a primary key \<open>P\<close> (the destination
  being another table, or a schema in which no column is named like a snapshot property):
  when the save of the destination instance reports a failure, \<open>convert\<close> returns
  none, issues no \<open>DELETE\<close> and leaves the source table as it was; when the save
  throws, \<open>convert\<close> throws the same error with the engine untouched; and a
  \<open>DELETE\<close> is issued only after the save has reported success.
\<close>

lemma convert_delete_follows_reported_success:
  assumes pk: "primaryKeyColumn schema = Some P" "P \<noteq> []"
      and safe: "fst to_model \<noteq> t \<or> plain_names (snd to_model)"
      and sv: "save to_model (fromObject (snd to_model) (toObject schema True this)) e = (sres, e1)"
      and cv: "convert (t, schema) this to_model e = (res, e')"
  shows "(\<forall>r i. sres = Inr (r, i) \<and> \<not> truthy_status r \<longrightarrow>
            res = Inr None \<and> e' = e1 \<and> map_of (master e') t = map_of (master e) t
            \<and> (\<forall>s \<in> set (issued_since e e'). \<not> is_delete s))
       \<and> (\<forall>x. sres = Inl x \<longrightarrow> res = Inl x \<and> e' = e)
       \<and> ((\<exists>s \<in> set (issued_since e e'). is_delete s) \<longrightarrow>
            (\<exists>r i. sres = Inr (r, i) \<and> truthy_status r \<and> res = Inr (Some i)
               \<and> issued_since e e' =
                   issued_since e e1 @ [DeleteWhere t P ''='' (field_of this P) (Some 1)]))"
proof -
  let ?new = "fromObject (snd to_model) (toObject schema True this)"
  have npk: "\<not> no_pkey (primaryKeyColumn schema)"
    using pk by (simp add: no_pkey_def)
  have nodel: "\<forall>s \<in> set (issued_since e e1). \<not> is_delete s"
    using save_issues_no_delete [of e to_model ?new] sv by simp
  obtain xs where pre: "issued e1 = issued e @ xs"
    using issued_save_prefix [of to_model ?new e] sv by auto
  have failed: "res = Inr None \<and> e' = e1 \<and> map_of (master e') t = map_of (master e) t
            \<and> (\<forall>s \<in> set (issued_since e e'). \<not> is_delete s)"
    if f: "sres = Inr (r, i)" "\<not> truthy_status r" for r i
  proof -
    from cv npk sv f have r: "res = Inr None" "e' = e1"
      by (simp_all add: convert_def Let_def)
    have "map_of (master e1) t = map_of (master e) t"
      using safe
    proof
      assume "fst to_model \<noteq> t"
      then have "t \<noteq> fst to_model" by simp
      from save_other [OF this, of ?new e] sv show ?thesis by simp
    next
      assume "plain_names (snd to_model)"
      then have "changed_columns (snd to_model) ?new = []"
        by (simp add: fromObject_def construct_unchanged)
      from save_unchanged_instance_failed [OF this, of e r i e1] sv f
      show ?thesis by simp
    qed
    with r nodel show ?thesis by simp
  qed
  have rejected: "res = Inl x \<and> e' = e" if f: "sres = Inl x" for x
  proof -
    from sv f save_rejected [of to_model ?new e x e1] have "e1 = e" by simp
    with cv npk sv f show ?thesis by (simp add: convert_def Let_def)
  qed
  have deleted: "\<exists>r i. sres = Inr (r, i) \<and> truthy_status r \<and> res = Inr (Some i)
               \<and> issued_since e e' =
                   issued_since e e1 @ [DeleteWhere t P ''='' (field_of this P) (Some 1)]"
    if d: "\<exists>s \<in> set (issued_since e e'). is_delete s"
  proof (cases sres)
    case (Inl x)
    with rejected [of x] d show ?thesis by (simp add: issued_since_def)
  next
    case (Inr p)
    obtain r i where p: "p = (r, i)" by (cases p)
    show ?thesis
    proof (cases "truthy_status r")
      case False
      with failed [of r i] Inr p d show ?thesis by blast
    next
      case True
      obtain r2 e2 where dr: "deleteRow t P (field_of this P) None e1 = (r2, e2)"
        by (cases "deleteRow t P (field_of this P) None e1")
      from issued_deleteRow [of t P "field_of this P" e1] dr
      have i2: "issued e2 = issued e1 @ [DeleteWhere t P ''='' (field_of this P) (Some 1)]"
        by simp
      from cv npk pk sv Inr p True dr have r: "res = Inr (Some i)" "e' = e2"
        by (simp_all add: convert_def delete_def Let_def)
      from i2 pre r have "issued_since e e' =
          issued_since e e1 @ [DeleteWhere t P ''='' (field_of this P) (Some 1)]"
        by (simp add: issued_since_def)
      with Inr p True r show ?thesis by simp
    qed
  qed
  from failed rejected deleted show ?thesis by blast
qed

lemma convert_delete_follows_reported_success_example:
  "fst (convert (''items'', items_schema) item_a (''archive'', archive_schema) archive_full) = Inr None
   \<and> map_of (master (snd (convert (''items'', items_schema) item_a (''archive'', archive_schema)
                            archive_full))) ''items''
       = Some \<lparr>cols = [(''id'', ''TEXT''), (''url'', ''TEXT''), (''size'', ''INTEGER'')],
                rows = [[Str ''a'', Str ''http://x'', Num 10]]\<rparr>
   \<and> issued_since (engine_of two_tables)
        (snd (convert (''items'', items_schema) item_a (''archive'', archive_schema)
                (engine_of two_tables)))
       = [SelectExists ''archive'' ''id'' ''='' (Str ''a''),
          InsertValues ''archive'' [Str ''a'', Str ''http://x'', Undefined],
          DeleteWhere ''items'' ''id'' ''='' (Str ''a'') (Some 1)]"
proof -
  let ?I = "(''items'', items_schema)"
  let ?A = "(''archive'', archive_schema)"
  let ?new = "fromObject (snd ?A) (toObject items_schema True item_a)"
  let ?E = "engine_of two_tables"
  have pk: "primaryKeyColumn items_schema = Some ''id''" "''id'' \<noteq> []"
    by code_simp+
  have safe: "fst ?A \<noteq> ''items'' \<or> plain_names (snd ?A)"
    by simp
  have key: "field_of item_a ''id'' = Str ''a''"
    by code_simp
  \<comment> \<open>the save fails\<close>
  have f: "map_sum id (\<lambda>p. truthy_status (fst p)) (fst (save ?A ?new archive_full)) = Inr False"
    by code_simp
  then obtain r i where s1: "fst (save ?A ?new archive_full) = Inr (r, i)" and nt: "\<not> truthy_status r"
    by (cases "fst (save ?A ?new archive_full)") auto
  have before: "map_of (master archive_full) ''items''
       = Some \<lparr>cols = [(''id'', ''TEXT''), (''url'', ''TEXT''), (''size'', ''INTEGER'')],
                rows = [[Str ''a'', Str ''http://x'', Num 10]]\<rparr>"
    by code_simp
  from convert_delete_follows_reported_success [where e = archive_full and this = item_a
      and t = "''items''" and to_model = ?A, OF pk safe surjective_pairing surjective_pairing] s1 nt
  have a0: "fst (convert ?I item_a ?A archive_full) = Inr None
           \<and> map_of (master (snd (convert ?I item_a ?A archive_full))) ''items''
               = map_of (master archive_full) ''items''"
    by blast
  with before
  have a: "fst (convert ?I item_a ?A archive_full) = Inr None
           \<and> map_of (master (snd (convert ?I item_a ?A archive_full))) ''items''
               = Some \<lparr>cols = [(''id'', ''TEXT''), (''url'', ''TEXT''), (''size'', ''INTEGER'')],
                        rows = [[Str ''a'', Str ''http://x'', Num 10]]\<rparr>"
    by simp
  \<comment> \<open>the save succeeds\<close>
  have d: "\<exists>s \<in> set (issued_since ?E (snd (convert ?I item_a ?A ?E))). is_delete s"
    by code_simp
  have sl: "issued_since ?E (snd (save ?A ?new ?E))
              = [SelectExists ''archive'' ''id'' ''='' (Str ''a''),
                 InsertValues ''archive'' [Str ''a'', Str ''http://x'', Undefined]]"
    by code_simp
  from convert_delete_follows_reported_success [where e = ?E and this = item_a
      and t = "''items''" and to_model = ?A, OF pk safe surjective_pairing surjective_pairing] d
  have "issued_since ?E (snd (convert ?I item_a ?A ?E))
       = issued_since ?E (snd (save ?A ?new ?E))
           @ [DeleteWhere ''items'' ''id'' ''='' (field_of item_a ''id'') (Some 1)]"
    by blast
  with sl key
  have b: "issued_since ?E (snd (convert ?I item_a ?A ?E))
       = [SelectExists ''archive'' ''id'' ''='' (Str ''a''),
          InsertValues ''archive'' [Str ''a'', Str ''http://x'', Undefined],
          DeleteWhere ''items'' ''id'' ''='' (Str ''a'') (Some 1)]"
    by simp
  from a b show ?thesis by simp
qed

text \<open>
  C7. The destination \<open>archive\<close> already holds a row with the key of the instance. The
  save of the destination instance, which \<open>fromObject\<close> has just built, finds that row,
  has no differing column, writes nothing and reports success, and \<open>convert\<close> deletes
  the original row. The statements issued are the probe and the \<open>DELETE\<close>: the row of
  \<open>items\<close> is gone, the row of \<open>archive\<close> holds its old values, and the instance
  returned was never persisted.
\<close>

theorem convert_deletes_original_nothing_persisted:
  "issued_since (engine_of archive_taken)
     (snd (convert (''items'', items_schema) item_a (''archive'', archive_schema)
             (engine_of archive_taken)))
     = [SelectExists ''archive'' ''id'' ''='' (Str ''a''),
        DeleteWhere ''items'' ''id'' ''='' (Str ''a'') (Some 1)]
   \<and> map_sum id (map_option (\<lambda>i. map (field_of i) [''id'', ''url'', ''note'']))
       (fst (convert (''items'', items_schema) item_a (''archive'', archive_schema)
               (engine_of archive_taken)))
     = Inr (Some [Str ''a'', Str ''http://x'', Undefined])
   \<and> map_of (master (snd (convert (''items'', items_schema) item_a (''archive'', archive_schema)
                            (engine_of archive_taken)))) ''archive''
     = Some \<lparr>cols = [(''id'', ''TEXT''), (''url'', ''TEXT''), (''note'', ''TEXT'')],
              rows = [[Str ''a'', Str ''http://old'', Str ''kept'']]\<rparr>
   \<and> map_of (master (snd (convert (''items'', items_schema) item_a (''archive'', archive_schema)
                            (engine_of archive_taken)))) ''items''
     = Some \<lparr>cols = [(''id'', ''TEXT''), (''url'', ''TEXT''), (''size'', ''INTEGER'')],
              rows = []\<rparr>"
  by code_simp

subsection \<open>Opening storage that already conforms\<close>

lemma quiet_refl: "quiet e e"
  by (simp add: quiet_def issued_since_def)

lemma drop_prefix: "ys = xs @ zs \<Longrightarrow> drop (length xs) ys = zs"
  by simp

lemma quiet_issued:
  assumes "quiet e e'"
  shows "issued e' = issued e @ issued_since e e'"
proof -
  have "issued e' = take (length (issued e)) (issued e') @ drop (length (issued e)) (issued e')"
    by simp
  with assms show ?thesis by (simp add: quiet_def issued_since_def)
qed

lemma quiet_trans:
  assumes "quiet e1 e2" "quiet e2 e3"
  shows "quiet e1 e3"
proof -
  note i12 = quiet_issued [OF assms(1)] and i23 = quiet_issued [OF assms(2)]
  have q12: "list_all is_query (issued_since e1 e2)" and q23: "list_all is_query (issued_since e2 e3)"
    using assms by (simp_all add: quiet_def)
  have i13: "issued e3 = issued e1 @ (issued_since e1 e2 @ issued_since e2 e3)"
    using i12 i23 by simp
  have s13: "issued_since e1 e3 = issued_since e1 e2 @ issued_since e2 e3"
    unfolding issued_since_def [of e1 e3] by (rule drop_prefix) (rule i13)
  have t13: "take (length (issued e1)) (issued e3) = issued e1"
    using i13 by simp
  have m: "master e3 = master e1" "refuses e3 = refuses e1"
    using assms by (simp_all add: quiet_def)
  show ?thesis
    unfolding quiet_def using m t13 s13 q12 q23 by simp
qed

lemma quiet_db_all:
  assumes "is_query s"
  shows "quiet e (snd (db_all s e))"
  using assms by (simp add: quiet_def db_all_def log_stmt_def issued_since_def)

lemma quiet_db_get:
  assumes "is_query s"
  shows "quiet e (snd (db_get s e))"
  using quiet_db_all [OF assms, of e] by (simp add: snd_db_get)

lemma info_cols_roundtrip:
  "info_cols (map (\<lambda>c. [(''name'', Str (fst c)), (''type'', Str (snd c))]) cs) = cs"
  by (induction cs) (simp_all add: info_cols_def get_prop_def)

text \<open>tableExists\<close>

lemma tableExists_quiet: "quiet e (snd (tableExists table e))"
proof -
  have "snd (tableExists table e) = snd (db_get (SelectTable table) e)"
    by (cases "db_get (SelectTable table) e") (auto simp: tableExists_def split: option.splits)
  then show ?thesis using quiet_db_get [of "SelectTable table" e] by simp
qed

lemma filter_fst_map_of: "(filter (\<lambda>e. fst e = n) m \<noteq> []) = (map_of m n \<noteq> None)"
  by (induction m) auto

lemma tableExists_result:
  assumes "code (fst (tableExists table e)) = 200"
  shows "status (fst (tableExists table e)) = Some (map_of (master e) table \<noteq> None)"
proof (cases "refuses e (issued e) (SelectTable table)")
  case True
  with assms show ?thesis
    by (simp add: tableExists_def db_get_def db_all_def resp_def)
next
  case False
  have "(map (\<lambda>e. [(''name'', Str (fst e))]) (filter (\<lambda>e. fst e = table) (master e)) \<noteq> [])
        = (map_of (master e) table \<noteq> None)"
    using filter_fst_map_of [of table "master e"] by simp
  with False show ?thesis
    by (cases "map (\<lambda>e. [(''name'', Str (fst e))]) (filter (\<lambda>e. fst e = table) (master e))")
       (simp_all add: tableExists_def db_get_def db_all_def resp_def)
qed

text \<open>table_info\<close>

lemma table_info_quiet: "quiet e (snd (table_info table e))"
proof -
  have "snd (table_info table e) = snd (db_all (TableInfo table) e)"
    by (cases "db_all (TableInfo table) e") (auto simp: table_info_def split: option.splits)
  then show ?thesis using quiet_db_all [of "TableInfo table" e] by simp
qed

lemma table_info_result:
  assumes "map_of (master e) table = Some t" "fst (table_info table e) = Some tf"
  shows "tf = cols t"
  using assms
  by (auto simp: table_info_def db_all_def info_cols_roundtrip split: if_splits)

text \<open>fieldExists\<close>

lemma fieldExists_quiet: "quiet e (snd (fieldExists table field e))"
proof -
  have "snd (fieldExists table field e) = snd (table_info table e)"
    by (cases "table_info table e") (auto simp: fieldExists_def split: option.splits)
  then show ?thesis using table_info_quiet [of e table] by simp
qed

lemma fieldExists_result:
  assumes "map_of (master e) table = Some t" "code (fst (fieldExists table field e)) = 200"
  shows "status (fst (fieldExists table field e)) = Some (field \<in> set (map fst (cols t)))"
proof (cases "fst (table_info table e)")
  case None
  with assms(2) show ?thesis
    by (cases "table_info table e") (simp add: fieldExists_def resp_def)
next
  case (Some tf)
  with table_info_result [OF assms(1) Some] show ?thesis
    by (cases "table_info table e") (simp add: fieldExists_def resp_def)
qed

text \<open>renameField towards a column that exists\<close>

lemma renameField_quiet:
  assumes t: "map_of (master e) table = Some t" and new: "new_field \<in> set (map fst (cols t))"
  shows "quiet e (snd (renameField table old_field new_field e))"
proof -
  obtain result1 e1 where f1: "fieldExists table old_field e = (result1, e1)"
    by (cases "fieldExists table old_field e")
  have q1: "quiet e e1" using fieldExists_quiet [of e table old_field] f1 by simp
  show ?thesis
  proof (cases "truthy_status result1")
    case False
    then have "snd (renameField table old_field new_field e) = e1"
      by (simp add: renameField_def f1)
    with q1 show ?thesis by simp
  next
    case True
    obtain result2 e2 where f2: "fieldExists table new_field e1 = (result2, e2)"
      by (cases "fieldExists table new_field e1")
    have q2: "quiet e1 e2" using fieldExists_quiet [of e1 table new_field] f2 by simp
    from q1 t have t1: "map_of (master e1) table = Some t" by (simp add: quiet_def)
    have "code result2 = 200 \<Longrightarrow> truthy_status result2"
      using fieldExists_result [OF t1, of new_field] f2 new by (simp add: truthy_status_def)
    then have d: "code result2 \<noteq> 200 \<or> truthy_status result2" by blast
    have "snd (renameField table old_field new_field e) = e2"
      using d by (simp add: renameField_def f1 f2 True)
    with quiet_trans [OF q1 q2] show ?thesis by simp
  qed
qed

lemma rename_loop_quiet:
  assumes "map_of (master e) table = Some t" "\<forall>f \<in> set flds. name f \<in> set (map fst (cols t))"
  shows "quiet e (snd (rename_loop table flds settled e))"
  using assms
proof (induction flds arbitrary: settled e)
  case Nil
  then show ?case by (simp add: quiet_refl)
next
  case (Cons f flds)
  have rest: "\<forall>f \<in> set flds. name f \<in> set (map fst (cols t))"
    using Cons.prems(2) by simp
  have here: "name f \<in> set (map fst (cols t))"
    using Cons.prems(2) by simp
  show ?case
  proof (cases "old f = None \<or> old f = Some []")
    case True
    then have "rename_loop table (f # flds) settled e = rename_loop table flds settled e"
      by auto
    with Cons.IH [OF Cons.prems(1) rest, of settled] show ?thesis by simp
  next
    case False
    then obtain old_name where o: "old f = Some old_name" "old_name \<noteq> []" by auto
    obtain result e1 where r: "renameField table old_name (name f) e = (result, e1)"
      by (cases "renameField table old_name (name f) e")
    have q1: "quiet e e1"
      using renameField_quiet [OF Cons.prems(1) here, of old_name] r by simp
    then have t1: "map_of (master e1) table = Some t"
      using Cons.prems(1) by (simp add: quiet_def)
    have eq: "rename_loop table (f # flds) settled e =
                rename_loop table flds (if code result = 500 then settle settled result else settled) e1"
      by (simp add: o r)
    have "quiet e1 (snd (rename_loop table flds
             (if code result = 500 then settle settled result else settled) e1))"
      by (rule Cons.IH [OF t1 rest])
    with q1 show ?thesis unfolding eq by (rule quiet_trans)
  qed
qed

lemma table_conformsD:
  assumes "table_conforms del_unused reord flds t"
  shows "\<forall>f \<in> set flds. name f \<in> set (map fst (cols t))"
    and "del_unused \<Longrightarrow> \<forall>c \<in> set (cols t). fst c \<in> set (map name flds)"
    and "reord \<Longrightarrow> take (length flds) (map fst (cols t)) = map name flds"
  using assms by (auto simp: table_conforms_def list_all_iff)

lemma addFields_quiet:
  assumes t: "map_of (master e) table = Some t"
      and c: "table_conforms del_unused reord flds t"
  shows "quiet e (snd (addFields table flds del_unused e))"
proof -
  note present = table_conformsD(1) [OF c]
  obtain settled1 e1 where rl: "rename_loop table flds None e = (settled1, e1)"
    by (cases "rename_loop table flds None e")
  have q1: "quiet e e1"
    using rename_loop_quiet [OF t present, of None] rl by simp
  then have t1: "map_of (master e1) table = Some t"
    using t by (simp add: quiet_def)
  obtain ti e2 where inf: "table_info table e1 = (ti, e2)"
    by (cases "table_info table e1")
  have q2: "quiet e1 e2"
    using table_info_quiet [of e1 table] inf by simp
  have "snd (addFields table flds del_unused e) = e2"
  proof (cases ti)
    case None
    then show ?thesis by (simp add: addFields_def rl inf)
  next
    case (Some table_fields)
    with table_info_result [OF t1, of table_fields] inf have tf: "table_fields = cols t" by simp
    have missing: "filter (\<lambda>f. name f \<notin> fst ` set table_fields) flds = []"
      using present tf by (simp add: filter_empty_conv)
    have unused: "del_unused \<Longrightarrow>
                    filter (\<lambda>n. n \<notin> name ` set flds) (map fst table_fields) = []"
      using table_conformsD(2) [OF c] tf by (auto simp: filter_empty_conv)
    show ?thesis
    proof (cases del_unused)
      case True
      with unused have u: "filter (\<lambda>n. n \<notin> name ` set flds) (map fst table_fields) = []"
        by simp
      show ?thesis
        by (simp add: addFields_def rl inf Some Let_def missing u)
    next
      case False
      then show ?thesis
        by (simp add: addFields_def rl inf Some Let_def missing)
    qed
  qed
  with quiet_trans [OF q1 q2] show ?thesis by simp
qed

lemma createTable_quiet:
  assumes t: "map_of (master e) table = Some t"
      and c: "table_conforms del_unused reord flds t"
  shows "quiet e (snd (createTable del_unused table flds e))"
proof -
  obtain result e1 where te: "tableExists table e = (result, e1)"
    by (cases "tableExists table e")
  have q1: "quiet e e1"
    using tableExists_quiet [of e table] te by simp
  then have t1: "map_of (master e1) table = Some t"
    using t by (simp add: quiet_def)
  show ?thesis
  proof (cases "code result = 200")
    case False
    then have "snd (createTable del_unused table flds e) = e1"
      by (simp add: createTable_def te)
    with q1 show ?thesis by simp
  next
    case True
    have "truthy_status result"
      using tableExists_result [of table e] te True t by (simp add: truthy_status_def)
    with True have "createTable del_unused table flds e = addFields table flds del_unused e1"
      by (simp add: createTable_def te)
    with quiet_trans [OF q1 addFields_quiet [OF t1 c]] show ?thesis by simp
  qed
qed

lemma every_match_prefix:
  assumes "take (length flds) (map fst tf) = map name flds"
  shows "every_match flds tf = Inr True"
  using assms
proof (induction flds tf rule: every_match.induct)
  case (1 table_fields)
  then show ?case by simp
next
  case (2 f fs)
  then show ?case by simp
next
  case (3 f fs t ts)
  then show ?case by simp
qed

lemma reorderFields_quiet:
  assumes t: "map_of (master e) table = Some t"
      and c: "table_conforms del_unused True flds t"
  shows "\<exists>r e'. reorderFields del_unused rand_id table flds e = Inr (r, e') \<and> quiet e e'"
proof -
  obtain ti e1 where inf: "table_info table e = (ti, e1)"
    by (cases "table_info table e")
  have q1: "quiet e e1"
    using table_info_quiet [of e table] inf by simp
  show ?thesis
  proof (cases ti)
    case None
    then have "reorderFields del_unused rand_id table flds e = Inr (resp 500 False, e1)"
      by (simp add: reorderFields_def inf)
    with q1 show ?thesis by simp
  next
    case (Some table_fields)
    with table_info_result [OF t, of table_fields] inf have tf: "table_fields = cols t" by simp
    have "every_match flds table_fields = Inr True"
      using every_match_prefix [of flds "cols t"] table_conformsD(3) [OF c] tf by simp
    then have "reorderFields del_unused rand_id table flds e = Inr (resp 200 False, e1)"
      by (simp add: reorderFields_def inf Some)
    with q1 show ?thesis by simp
  qed
qed

lemma migrate_tables_quiet:
  assumes "list_all (\<lambda>(table, flds). case map_of (master e) table of None \<Rightarrow> False
                       | Some t \<Rightarrow> table_conforms del_unused reord flds t) tabs"
  shows "\<exists>e'. migrate_tables del_unused reord rnd tabs e = Inr e' \<and> quiet e e'"
  using assms
proof (induction tabs arbitrary: e)
  case Nil
  then show ?case by (simp add: quiet_refl)
next
  case (Cons p tabs)
  obtain table flds where p: "p = (table, flds)" by (cases p)
  from Cons.prems p obtain t where t: "map_of (master e) table = Some t"
    and c: "table_conforms del_unused reord flds t"
    by (auto split: option.splits)
  from Cons.prems have rest: "list_all (\<lambda>(table, flds). case map_of (master e) table of None \<Rightarrow> False
                       | Some t \<Rightarrow> table_conforms del_unused reord flds t) tabs"
    by simp
  obtain r1 e1 where ct: "createTable del_unused table flds e = (r1, e1)"
    by (cases "createTable del_unused table flds e")
  have q1: "quiet e e1"
    using createTable_quiet [OF t c] ct by simp
  then have m1: "master e1 = master e" by (simp add: quiet_def)
  show ?case
  proof (cases reord)
    case False
    from Cons.IH [of e1] rest m1 obtain e' where
      mt: "migrate_tables del_unused reord rnd tabs e1 = Inr e'" and q: "quiet e1 e'"
      by auto
    from False have "migrate_tables del_unused reord rnd (p # tabs) e
                       = migrate_tables del_unused reord rnd tabs e1"
      by (simp add: p ct)
    with mt quiet_trans [OF q1 q] show ?thesis by simp
  next
    case True
    from t m1 have t1: "map_of (master e1) table = Some t" by simp
    from c True have c1: "table_conforms del_unused True flds t" by simp
    from reorderFields_quiet [OF t1 c1, of "rnd table"] obtain r2 e2 where
      ro: "reorderFields del_unused (rnd table) table flds e1 = Inr (r2, e2)" and q2: "quiet e1 e2"
      by blast
    from q2 m1 have m2: "master e2 = master e" by (simp add: quiet_def)
    from Cons.IH [of e2] rest m2 obtain e' where
      mt: "migrate_tables del_unused reord rnd tabs e2 = Inr e'" and q: "quiet e2 e'"
      by auto
    from True have "migrate_tables del_unused reord rnd (p # tabs) e
                       = migrate_tables del_unused reord rnd tabs e2"
      by (simp add: p ct ro)
    with mt quiet_trans [OF q1 quiet_trans [OF q2 q]] show ?thesis by simp
  qed
qed

lemma getTables_quiet: "quiet e (snd (getTables e))"
proof -
  have "snd (getTables e) = snd (db_all SelectTables e)"
    by (cases "db_all SelectTables e") (auto simp: getTables_def split: option.splits)
  then show ?thesis using quiet_db_all [of SelectTables e] by simp
qed

lemma getTables_names:
  "snd (fst (getTables e)) = [] \<or> snd (fst (getTables e)) = map fst (master e)"
proof (cases "refuses e (issued e) SelectTables")
  case True
  then show ?thesis by (simp add: getTables_def db_all_def)
next
  case False
  then show ?thesis by (simp add: getTables_def db_all_def get_prop_def)
qed

lemma prune_tables_nothing:
  assumes "del_unused \<Longrightarrow> \<forall>n \<in> set names. map_of tabs n \<noteq> None"
  shows "prune_tables del_unused tabs names e = e"
  using assms by (induction names) auto

text \<open>
  C8. When storage conforms to the declared schema under the options of the database
  object, \<open>open()\<close> settles, leaves every stored table as it was, and every statement it
  issues only reads the catalogue: no column is renamed, added or dropped, no table is
  created, rebuilt, renamed or dropped. This holds whatever the engine refuses.
\<close>

theorem open_again_changes_nothing:
  assumes "conformant (delete_unused this) (reorder this) (tables this) (master (db this))"
  shows "\<exists>r this'. open_db rnd this = Inr (r, this')
           \<and> master (db this') = master (db this)
           \<and> list_all is_query (issued_since (db this) (db this'))"
proof (cases "open_error this")
  case True
  then show ?thesis by (simp add: open_db_def issued_since_def)
next
  case False
  let ?du = "delete_unused this"
  from assms have tabs: "list_all (\<lambda>(table, flds). case map_of (master (db this)) table of
        None \<Rightarrow> False | Some t \<Rightarrow> table_conforms ?du (reorder this) flds t) (tables this)"
    and declared: "?du \<Longrightarrow> \<forall>n \<in> set (map fst (master (db this))). map_of (tables this) n \<noteq> None"
    by (auto simp: conformant_def list_all_iff)
  from migrate_tables_quiet [OF tabs, of rnd] obtain e1 where
    mt: "migrate_tables ?du (reorder this) rnd (tables this) (db this) = Inr e1"
    and q1: "quiet (db this) e1"
    by blast
  obtain r names e2 where gt: "getTables e1 = ((r, names), e2)"
    by (cases "getTables e1") auto
  have q2: "quiet e1 e2" using getTables_quiet [of e1] gt by simp
  from q1 have m1: "master e1 = master (db this)" by (simp add: quiet_def)
  from getTables_names [of e1] gt m1
  have "names = [] \<or> names = map fst (master (db this))" by simp
  with declared have "?du \<Longrightarrow> \<forall>n \<in> set names. map_of (tables this) n \<noteq> None"
    by auto
  from prune_tables_nothing [where e = e2, OF this] have pr: "prune_tables ?du (tables this) names e2 = e2"
    by simp
  note q = quiet_trans [OF q1 q2]
  from False mt gt pr have
    "\<exists>r this'. open_db rnd this = Inr (r, this') \<and> db this' = e2"
    by (simp add: open_db_def Let_def)
  with q show ?thesis by (auto simp: quiet_def)
qed

theorem open_again_changes_nothing_witness:
  "master (db legacy_database) = legacy_tables
   \<and> \<not> list_all is_query (issued (db migrated_database))
   \<and> master (db migrated_database)
       = [(''items'', \<lparr>cols = [(''id'', ''TEXT''), (''url'', ''TEXT''), (''size'', ''INTEGER'')],
                      rows = [[Str ''a'', Str ''http://x'', Num 0]]\<rparr>)]
   \<and> (\<exists>r this'. open_db (\<lambda>_. 9) migrated_database = Inr (r, this')
          \<and> master (db this') = master (db migrated_database)
          \<and> list_all is_query (issued_since (db migrated_database) (db this')))"
proof -
  have c: "conformant (delete_unused migrated_database) (reorder migrated_database)
             (tables migrated_database) (master (db migrated_database))"
    by code_simp
  have a: "master (db legacy_database) = legacy_tables"
    by code_simp
  have b: "\<not> list_all is_query (issued (db migrated_database))"
    by code_simp
  have m: "master (db migrated_database)
       = [(''items'', \<lparr>cols = [(''id'', ''TEXT''), (''url'', ''TEXT''), (''size'', ''INTEGER'')],
                      rows = [[Str ''a'', Str ''http://x'', Num 0]]\<rparr>)]"
    by code_simp
  from open_again_changes_nothing [OF c, of "\<lambda>_. 9"] a b m show ?thesis
    by simp
qed

subsection \<open>Opening and the outcome of migration steps\<close>

lemma migrate_tables_settles:
  "\<exists>e'. migrate_tables del_unused False rnd tabs e = Inr e'"
proof (induction tabs arbitrary: e)
  case Nil
  then show ?case by simp
next
  case (Cons p tabs)
  obtain table flds where p: "p = (table, flds)" by (cases p)
  obtain r1 e1 where ct: "createTable del_unused table flds e = (r1, e1)"
    by (cases "createTable del_unused table flds e")
  have "migrate_tables del_unused False rnd (p # tabs) e = migrate_tables del_unused False rnd tabs e1"
    by (simp add: p ct)
  with Cons [of e1] show ?case by simp
qed

text \<open>
  C1, as the code has it. \<open>open()\<close> does not look at what a migration step reports.
  When the storage handle cannot be opened, it reports 500, and the database is not
  marked ready, no timer is started and no statement is issued. When the handle opens
  and \<open>open()\<close> settles (it always does with \<open>reorder\<close> off), it reports success,
  marks the database ready and starts the enabled timers, whatever \<open>createTable\<close>,
  \<open>reorderFields\<close> and \<open>deleteTable\<close> reported.
\<close>

theorem open_ready_whatever_steps_report:
  "(open_error this \<longrightarrow>
      (\<exists>this'. open_db rnd this = Inr (resp 500 False, this')
         \<and> ready this' = ready this \<and> backup_timer this' = backup_timer this
         \<and> vacuum_timer this' = vacuum_timer this \<and> db this' = db this))
   \<and> (\<not> reorder this \<longrightarrow> (\<exists>r this'. open_db rnd this = Inr (r, this')))
   \<and> (\<forall>r this'. \<not> open_error this \<and> open_db rnd this = Inr (r, this') \<longrightarrow>
         r = resp 200 True \<and> ready this'
         \<and> backup_timer this' = (backup_enabled this \<or> backup_timer this)
         \<and> vacuum_timer this' = (vacuum_enabled this \<or> vacuum_timer this))"
proof -
  have failed: "\<exists>this'. open_db rnd this = Inr (resp 500 False, this')
         \<and> ready this' = ready this \<and> backup_timer this' = backup_timer this
         \<and> vacuum_timer this' = vacuum_timer this \<and> db this' = db this"
    if "open_error this"
    using that by (simp add: open_db_def)
  have settles: "\<exists>r this'. open_db rnd this = Inr (r, this')" if nr: "\<not> reorder this"
  proof (cases "open_error this")
    case True
    with failed show ?thesis by blast
  next
    case False
    from migrate_tables_settles [of "delete_unused this" rnd "tables this" "db this"] nr
    obtain e1 where "migrate_tables (delete_unused this) (reorder this) rnd (tables this) (db this) = Inr e1"
      by auto
    with False show ?thesis
      by (simp add: open_db_def Let_def split: prod.splits)
  qed
  have opened: "r = resp 200 True \<and> ready this'
         \<and> backup_timer this' = (backup_enabled this \<or> backup_timer this)
         \<and> vacuum_timer this' = (vacuum_enabled this \<or> vacuum_timer this)"
    if o: "\<not> open_error this" "open_db rnd this = Inr (r, this')" for r this'
  proof (cases "migrate_tables (delete_unused this) (reorder this) rnd (tables this) (db this)")
    case (Inl x)
    with o show ?thesis by (simp add: open_db_def)
  next
    case (Inr e1)
    with o show ?thesis
      by (auto simp add: open_db_def Let_def split: prod.splits if_splits)
  qed
  from failed settles opened show ?thesis by blast
qed

theorem open_ready_whatever_steps_report_witness:
  "(\<exists>this'. open_db (\<lambda>_. 0) create_refused = Inr (resp 200 True, this')
       \<and> ready this' \<and> backup_timer this' \<and> \<not> vacuum_timer this')
   \<and> (\<exists>this'. open_db (\<lambda>_. 0) (first_run\<lparr>open_error := True\<rparr>) = Inr (resp 500 False, this')
       \<and> \<not> ready this' \<and> \<not> backup_timer this')"
proof -
  have f: "\<not> open_error create_refused" "\<not> reorder create_refused"
    "backup_enabled create_refused" "\<not> vacuum_enabled create_refused"
    "\<not> vacuum_timer create_refused"
    by (simp_all add: create_refused_def app_database_def)
  have g: "open_error (first_run\<lparr>open_error := True\<rparr>)" "\<not> ready (first_run\<lparr>open_error := True\<rparr>)"
    "\<not> backup_timer (first_run\<lparr>open_error := True\<rparr>)"
    by (simp_all add: first_run_def app_database_def)
  note t1 = open_ready_whatever_steps_report [of create_refused "\<lambda>_. 0"]
  note t2 = open_ready_whatever_steps_report [of "first_run\<lparr>open_error := True\<rparr>" "\<lambda>_. 0"]
  from t1 f obtain r this' where o: "open_db (\<lambda>_. 0) create_refused = Inr (r, this')"
    by blast
  with t1 f have "r = resp 200 True \<and> ready this' \<and> backup_timer this' \<and> \<not> vacuum_timer this'"
    by blast
  with o have a: "\<exists>this'. open_db (\<lambda>_. 0) create_refused = Inr (resp 200 True, this')
       \<and> ready this' \<and> backup_timer this' \<and> \<not> vacuum_timer this'"
    by blast
  from t2 g have b: "\<exists>this'. open_db (\<lambda>_. 0) (first_run\<lparr>open_error := True\<rparr>) = Inr (resp 500 False, this')
       \<and> \<not> ready this' \<and> \<not> backup_timer this'"
    by metis
  from a b show ?thesis by simp
qed

text \<open>
  C1 as stated fails: with an engine that refuses \<open>CREATE TABLE\<close>, the step
  \<open>createTable\<close> of the only declared table reports 500, and \<open>open()\<close> still
  reports success, marks the database ready and starts the backup timer.
\<close>

theorem open_ready_after_failed_create:
  "fst (createTable False ''items'' items_schema (db create_refused)) = resp 500 False
   \<and> map_sum id fst (open_db (\<lambda>_. 0) create_refused) = Inr (resp 200 True)
   \<and> map_sum id (ready \<circ> snd) (open_db (\<lambda>_. 0) create_refused) = Inr True
   \<and> map_sum id (backup_timer \<circ> snd) (open_db (\<lambda>_. 0) create_refused) = Inr True"
  by code_simp

subsection \<open>Tables without a primary key\<close>

lemma keyless_no_primaryKeyColumn:
  assumes "\<forall>c \<in> set schema. \<not> pkey c"
  shows "primaryKeyColumn schema = None"
  using assms by (simp add: primaryKeyColumn_def find_None_iff)

lemma sql_test_recognised:
  assumes "sql_test op Null Null \<noteq> None"
  shows "sql_test op a b \<noteq> None"
  using assms by (simp add: sql_test_def split: if_splits)

lemma pick_rows_map: "pick_rows (map f rs) rs = filter f rs"
  by (induction rs) (simp_all add: pick_rows_def)

lemma answer_select_where:
  assumes t: "map_of m table = Some tbl" and op: "sql_test op Null Null \<noteq> None"
  shows "answer (SelectWhere table field op v None) m
           = (case col_index field (cols tbl) of None \<Rightarrow> None
              | Some i \<Rightarrow> Some (map (row_obj tbl) (selected_rows tbl field op v)))"
proof (cases "col_index field (cols tbl)")
  case None
  with t show ?thesis by (simp add: matching_def)
next
  case (Some i)
  have "the (sql_test op a b) = (sql_test op a b = Some True)" for a b
    using sql_test_recognised [OF op, of a b] by (cases "sql_test op a b") auto
  then have "map (\<lambda>r. the (sql_test op (cell i r) (bind v))) (rows tbl)
           = map (\<lambda>r. sql_test op (cell i r) (bind v) = Some True) (rows tbl)"
    by simp
  with op Some have m: "matching tbl field op v
           = Some (map (\<lambda>r. sql_test op (cell i r) (bind v) = Some True) (rows tbl))"
    by (auto simp: matching_def)
  show ?thesis
    by (simp add: t m Some selected_rows_def pick_rows_map)
qed

lemma op_text_not_star:
  assumes "sql_test (op_text equality) Null Null \<noteq> None"
  shows "equality \<noteq> Some ''*''"
  using assms by (auto simp: op_text_def sql_test_def)

lemma column_fetch_rows:
  assumes t: "map_of (master e) t = Some tbl"
      and op: "sql_test (op_text equality) Null Null \<noteq> None"
      and nr: "\<not> refuses e (issued e) (SelectWhere t c (op_text equality) v None)"
  shows "column_fetch (t, schema) c v equality e
           = (Inr (map (\<lambda>r. fromObject schema (row_obj tbl r)) (selected_rows tbl c (op_text equality) v)),
              log_stmt (SelectWhere t c (op_text equality) v None) e)"
proof -
  let ?s = "SelectWhere t c (op_text equality) v None"
  note ns = op_text_not_star [OF op]
  have a: "answer ?s (master e) = (case col_index c (cols tbl) of None \<Rightarrow> None
              | Some i \<Rightarrow> Some (map (row_obj tbl) (selected_rows tbl c (op_text equality) v)))"
    by (rule answer_select_where [OF t op])
  show ?thesis
  proof (cases "col_index c (cols tbl)")
    case None
    with a nr ns show ?thesis
      by (simp add: column_fetch_def getRows_def db_all_def limit_of_def selected_rows_def)
  next
    case (Some i)
    with a nr ns show ?thesis
      by (simp add: column_fetch_def getRows_def db_all_def limit_of_def comp_def)
  qed
qed

lemma static_all_rows:
  assumes t: "map_of (master e) t = Some tbl"
      and nr: "\<not> refuses e (issued e) (SelectAll t None)"
  shows "static_all (t, schema) e
           = (Inr (map (\<lambda>r. fromObject schema (row_obj tbl r)) (rows tbl)),
              log_stmt (SelectAll t None) e)"
  using t nr
  by (simp add: static_all_def getRows_def db_all_def limit_of_def comp_def)

lemma assign_args_values:
  assumes "distinct (map name cs)"
      and "\<forall>d \<in> set cs. \<forall>d' \<in> set cs. name d \<noteq> original_key (name d')"
      and "length args = length cs"
  shows "map (\<lambda>c. field_of (assign_args cs args this) (name c)) cs = args"
  using assms
proof (induction cs arbitrary: args this)
  case Nil
  then show ?case by simp
next
  case (Cons c cs)
  from Cons.prems(3) obtain a as where args: "args = a # as" "length as = length cs"
    by (cases args) auto
  define this1 where "this1 = this(original_key (name c) \<mapsto> a, name c \<mapsto> a)"
  have step: "assign_args (c # cs) args this = assign_args cs as this1"
    by (simp add: args this1_def)
  have k: "\<forall>d \<in> set cs. name c \<noteq> name d \<and> name c \<noteq> original_key (name d)"
    using Cons.prems(1,2) by auto
  have here: "field_of (assign_args cs as this1) (name c) = a"
    using assign_args_other [OF k, of as this1] by (simp add: field_of_def this1_def)
  have d: "distinct (map name cs)" using Cons.prems(1) by simp
  have p: "\<forall>d \<in> set cs. \<forall>d' \<in> set cs. name d \<noteq> original_key (name d')"
    using Cons.prems(2) by simp
  have rest: "map (\<lambda>c. field_of (assign_args cs as this1) (name c)) cs = as"
    by (rule Cons.IH [OF d p args(2)])
  show ?case unfolding step using here rest args by simp
qed

lemma create_holds_values:
  assumes "distinct (map name schema)" "plain_names schema" "length args = length schema"
  shows "toObject schema True (static_create (t, schema) args) = zip (map name schema) args"
proof -
  have p: "\<forall>d \<in> set schema. \<forall>d' \<in> set schema. name d \<noteq> original_key (name d')"
    using assms(2) plain_namesD by blast
  have v: "map (\<lambda>c. field_of (construct schema args) (name c)) schema = args"
    unfolding construct_def by (rule assign_args_values [OF assms(1) p assms(3)])
  have "toObject schema True (static_create (t, schema) args)
          = zip (map name schema) (map (\<lambda>c. field_of (construct schema args) (name c)) schema)"
    by (simp add: toObject_def static_create_def zip_map_map zip_same_conv_map)
  with v show ?thesis by simp
qed

text \<open>
  C9, as the code has it. For a table declared without a primary-key column, static
  \<open>find\<close>, \<open>delete\<close> and \<open>setValue\<close>, the instance's \<open>save\<close>, \<open>delete\<close>, \<open>move\<close>
  and \<open>convert\<close>, and a column's \<open>setValue\<close> fail with the configuration error before
  any engine call: the engine is as before. Each of them is \<open>async\<close>, so the error is
  the rejection of the promise the call returns. The scan operations remain available:
  \<open>all\<close> and a column's \<open>fetch\<close> are always fulfilled; on a stored table, unless the
  engine refuses the \<open>SELECT\<close>, \<open>all\<close> yields one instance for every row and \<open>fetch\<close>
  one for every row that satisfies the comparison, each built from the row by
  \<open>fromObject\<close>; and \<open>create\<close> builds an instance that holds the given values under the
  declared column names.
\<close>

theorem keyless_identity_operations_rejected:
  assumes "\<forall>c \<in> set schema. \<not> pkey c"
  shows "async (static_find (t, schema) k e) = (Rejected (no_pkey_error ''find'' t), e)
       \<and> async (static_delete (t, schema) k e) = (Rejected (no_pkey_error ''find'' t), e)
       \<and> async (static_setValue (t, schema) field v k e) = (Rejected (no_pkey_error ''setValue'' t), e)
       \<and> async (save (t, schema) this e) = (Rejected (no_pkey_error ''save'' t), e)
       \<and> async (delete (t, schema) this e) = (Rejected (no_pkey_error ''delete'' t), e)
       \<and> async (move (t, schema) this to_model e) = (Rejected (no_pkey_error ''move'' t), e)
       \<and> async (convert (t, schema) this to_model e) = (Rejected (no_pkey_error ''convert'' t), e)
       \<and> async (column_setValue (t, schema) field k v e) = (Rejected (no_pkey_error ''setValue'' t), e)
       \<and> (\<exists>is. fst (async (static_all (t, schema) e)) = Fulfilled is)
       \<and> (\<exists>is. fst (async (column_fetch (t, schema) field v equality e)) = Fulfilled is)
       \<and> (map_of (master e) t = Some tbl \<and> \<not> refuses e (issued e) (SelectAll t None) \<longrightarrow>
            async (static_all (t, schema) e)
              = (Fulfilled (map (\<lambda>r. fromObject schema (row_obj tbl r)) (rows tbl)),
                 log_stmt (SelectAll t None) e))
       \<and> (map_of (master e) t = Some tbl \<and> sql_test (op_text equality) Null Null \<noteq> None
            \<and> \<not> refuses e (issued e) (SelectWhere t field (op_text equality) v None) \<longrightarrow>
            async (column_fetch (t, schema) field v equality e)
              = (Fulfilled (map (\<lambda>r. fromObject schema (row_obj tbl r))
                              (selected_rows tbl field (op_text equality) v)),
                 log_stmt (SelectWhere t field (op_text equality) v None) e))
       \<and> (distinct (map name schema) \<and> plain_names schema \<and> length args = length schema \<longrightarrow>
            toObject schema True (static_create (t, schema) args) = zip (map name schema) args)"
proof -
  note pk = keyless_no_primaryKeyColumn [OF assms]
  have errors:
    "async (static_find (t, schema) k e) = (Rejected (no_pkey_error ''find'' t), e)"
    "async (static_delete (t, schema) k e) = (Rejected (no_pkey_error ''find'' t), e)"
    "async (static_setValue (t, schema) field v k e) = (Rejected (no_pkey_error ''setValue'' t), e)"
    "async (save (t, schema) this e) = (Rejected (no_pkey_error ''save'' t), e)"
    "async (delete (t, schema) this e) = (Rejected (no_pkey_error ''delete'' t), e)"
    "async (move (t, schema) this to_model e) = (Rejected (no_pkey_error ''move'' t), e)"
    "async (convert (t, schema) this to_model e) = (Rejected (no_pkey_error ''convert'' t), e)"
    "async (column_setValue (t, schema) field k v e) = (Rejected (no_pkey_error ''setValue'' t), e)"
    by (simp_all add: pk async_def static_find_def static_delete_def static_setValue_def save_def
        delete_def move_def convert_def column_setValue_def no_pkey_def)
  have all: "\<exists>is. fst (async (static_all (t, schema) e)) = Fulfilled is"
    by (simp add: async_def static_all_def split: prod.splits)
  have fetch: "\<exists>is. fst (async (column_fetch (t, schema) field v equality e)) = Fulfilled is"
    by (simp add: async_def column_fetch_def split: prod.splits)
  have all_rows: "async (static_all (t, schema) e)
              = (Fulfilled (map (\<lambda>r. fromObject schema (row_obj tbl r)) (rows tbl)),
                 log_stmt (SelectAll t None) e)"
    if "map_of (master e) t = Some tbl" "\<not> refuses e (issued e) (SelectAll t None)"
    using static_all_rows [OF that, of schema] by (simp add: async_def)
  have fetch_rows: "async (column_fetch (t, schema) field v equality e)
              = (Fulfilled (map (\<lambda>r. fromObject schema (row_obj tbl r))
                              (selected_rows tbl field (op_text equality) v)),
                 log_stmt (SelectWhere t field (op_text equality) v None) e)"
    if "map_of (master e) t = Some tbl" "sql_test (op_text equality) Null Null \<noteq> None"
       "\<not> refuses e (issued e) (SelectWhere t field (op_text equality) v None)"
    using column_fetch_rows [OF that, of schema] by (simp add: async_def)
  have create: "toObject schema True (static_create (t, schema) args) = zip (map name schema) args"
    if "distinct (map name schema)" "plain_names schema" "length args = length schema"
    using that by (rule create_holds_values)
  from errors all fetch all_rows fetch_rows create show ?thesis by blast
qed

theorem keyless_identity_operations_rejected_witness:
  "async (save (''log'', log_schema) log_entry log_storage)
     = (Rejected (Error ''Cannot save: No primary key (pkey: true) defined for table 'log'.''),
        log_storage)
   \<and> async (static_find (''log'', log_schema) (Str ''started'') log_storage)
     = (Rejected (no_pkey_error ''find'' ''log''), log_storage)
   \<and> async (convert (''log'', log_schema) log_entry (''items'', items_schema) log_storage)
     = (Rejected (no_pkey_error ''convert'' ''log''), log_storage)
   \<and> async (static_all (''log'', log_schema) log_storage)
     = (Fulfilled (map (\<lambda>r. fromObject log_schema (row_obj log_table r)) (rows log_table)),
        log_stmt (SelectAll ''log'' None) log_storage)
   \<and> map (\<lambda>r. map (field_of (fromObject log_schema (row_obj log_table r))) [''line'', ''level''])
       (rows log_table)
     = [[Str ''started'', Num 1], [Str ''stopped'', Num 2]]
   \<and> async (column_fetch (''log'', log_schema) ''level'' (Num 1) (Some ''>'') log_storage)
     = (Fulfilled (map (\<lambda>r. fromObject log_schema (row_obj log_table r))
                     (selected_rows log_table ''level'' ''>'' (Num 1))),
        log_stmt (SelectWhere ''log'' ''level'' ''>'' (Num 1) None) log_storage)
   \<and> selected_rows log_table ''level'' ''>'' (Num 1) = [[Str ''stopped'', Num 2]]
   \<and> toObject log_schema True (static_create (''log'', log_schema) [Str ''x'', Num 3])
     = [(''line'', Str ''x''), (''level'', Num 3)]"
proof -
  have keyless: "\<forall>c \<in> set log_schema. \<not> pkey c"
    by (simp add: log_schema_def plain_column_def)
  have msg: "no_pkey_error ''save'' ''log''
               = Error ''Cannot save: No primary key (pkey: true) defined for table 'log'.''"
    by (simp add: no_pkey_error_def)
  have stored: "map_of (master log_storage) ''log'' = Some log_table"
    by (simp add: log_storage_def engine_of_def)
  have nr: "\<not> refuses log_storage (issued log_storage) s" for s
    by (simp add: log_storage_def engine_of_def)
  have op: "op_text (Some ''>'') = ''>''" "sql_test ''>'' Null Null \<noteq> None"
    by (simp_all add: op_text_def sql_test_def)
  have shape: "distinct (map name log_schema)" "plain_names log_schema"
    "length [Str ''x'', Num 3] = length log_schema"
    by code_simp+
  have names: "zip (map name log_schema) [Str ''x'', Num 3] = [(''line'', Str ''x''), (''level'', Num 3)]"
    by code_simp
  have vals: "map (\<lambda>r. map (field_of (fromObject log_schema (row_obj log_table r))) [''line'', ''level''])
       (rows log_table) = [[Str ''started'', Num 1], [Str ''stopped'', Num 2]]"
    by code_simp
  have sel: "selected_rows log_table ''level'' ''>'' (Num 1) = [[Str ''stopped'', Num 2]]"
    by code_simp
  note th = keyless_identity_operations_rejected [OF keyless, where t = "''log''" and e = log_storage
      and tbl = log_table and this = log_entry and to_model = "(''items'', items_schema)"
      and k = "Str ''started''" and field = "''level''" and v = "Num 1" and equality = "Some ''>''"
      and args = "[Str ''x'', Num 3]"]
  from th msg stored nr op shape names vals sel show ?thesis
    by simp
qed

text \<open>
  C9 as stated fails: \<open>save\<close> on an instance of the key-less table \<open>log\<close> throws nothing
  to its caller. The call returns a promise, and the configuration error is its
  rejection.
\<close>

theorem keyless_save_rejects_a_promise:
  "async (save (''log'', log_schema) log_entry log_storage)
     = (Rejected (Error ''Cannot save: No primary key (pkey: true) defined for table 'log'.''),
        log_storage)
   \<and> fst (async (save (''log'', log_schema) log_entry log_storage))
     \<noteq> Thrown (Error ''Cannot save: No primary key (pkey: true) defined for table 'log'.'')"
  by (simp add: async_def save_def no_pkey_def primaryKeyColumn_def log_schema_def
      plain_column_def no_pkey_error_def)

end
